theory Spec2Isabelle
  imports Main
begin

section \<open>Values, objects and the heap\<close>

text \<open>
  The client is a TypeScript class. Objects are passed by reference, so request descriptors,
  the header and query-parameter objects hanging off them, and arrays of service names live
  in a heap and are named by address. Values that are never mutated after construction
  (response bodies, endpoint collections) are kept structurally.
\<close>

type_synonym addr = nat

datatype jsval =
    VNull
  | VBool bool
  | VNum int
  | VStr string
  | VObj "(string \<times> jsval) list"
  | VArr "jsval list"
  | VList addr

text \<open>\<open>VList a\<close> is a reference to the mutable array of strings at address \<open>a\<close>.\<close>

fun truthy :: "jsval \<Rightarrow> bool" where
  "truthy VNull = False"
| "truthy (VBool b) = b"
| "truthy (VNum n) = (n \<noteq> 0)"
| "truthy (VStr s) = (s \<noteq> [])"
| "truthy (VObj kvs) = True"
| "truthy (VArr xs) = True"
| "truthy (VList a) = True"

text \<open>\<open>AxiosResponse\<close>: the status code and the body are all the client reads.\<close>

record AxiosResponse =
  status :: int
  data :: jsval

text \<open>
  A property declared as a number, as an object can hold it: an integer, \<open>NaN\<close>, or
  \<open>undefined\<close> (the property is present and holds no number). The client only compares
  such a property with an attempt index, which is an integer; a fraction compares there
  like the next integer above it.
\<close>

datatype jsnumber = Num int | NaN | Undefined

datatype version = VerStr string | VerNum int

datatype ttl_setting = TtlNum int | TtlBool bool

text \<open>
  \<open>APIRequestParams\<close>. Every property is optional; \<open>None\<close> is an absent property, so
  \<open>hasOwnProperty\<close> is \<open>\<noteq> None\<close>. \<open>headers\<close> and \<open>params\<close> hold references.
  \<open>retry_count\<close> is compared with the attempt index, so it is held as a \<open>jsnumber\<close>; a
  \<open>retry_interval\<close> that is \<open>undefined\<close> or \<open>NaN\<close> is falsy and reads as an absent one.
\<close>

record config =
  http_method :: "string option"
  url :: "string option"
  headers :: "addr option"
  params :: "addr option"
  req_data :: "jsval option"
  service_stack :: "string option"
  service_name :: "string option"
  residency :: "string option"
  version :: "version option"
  account_id :: "string option"
  path :: "string option"
  noEndpointsResolution :: "bool option"
  ttl :: "ttl_setting option"
  retry_count :: "jsnumber option"
  retry_interval :: "int option"
  accept_header :: "string option"
  response_type :: "string option"
  responseType :: "string option"

definition empty_config :: config where
  "empty_config = \<lparr> http_method = None, url = None, headers = None, params = None,
     req_data = None, service_stack = None, service_name = None, residency = None,
     version = None, account_id = None, path = None, noEndpointsResolution = None,
     ttl = None, retry_count = None, retry_interval = None, accept_header = None,
     response_type = None, responseType = None \<rparr>"

text \<open>A request as the transport sees it when it is sent (a snapshot of the descriptor).\<close>

record request =
  rq_method :: "string option"
  rq_url :: "string option"
  rq_params :: "(string \<times> string) list option"
  rq_body :: "jsval option"

datatype event = Sent request int | Waited int

text \<open>
  The process-wide state: the heap, the clock (milliseconds), the number of transport calls
  made so far, the number of random draws made so far, and a trace of what was sent (with
  the attempt index) and which delays were waited.
  The static \<open>AlApiClient.defaultServiceList\<close> is the array at address 0.
\<close>

record world =
  cfgs :: "addr \<rightharpoonup> config"
  dicts :: "addr \<rightharpoonup> (string \<times> string) list"
  arrays :: "addr \<rightharpoonup> string list"
  next_addr :: addr
  now :: nat
  sent :: nat
  draws :: nat
  trace :: "event list"

definition defaultServiceList :: addr where
  "defaultServiceList = 0"

definition initial_defaultServiceList :: "string list" where
  "initial_defaultServiceList = [''aims'', ''subscriptions'', ''search'', ''sources'',
     ''assets_query'', ''assets_write'', ''dashboards'', ''iris'', ''suggestions'', ''cargo'']"

definition initial_world :: world where
  "initial_world = \<lparr> cfgs = Map.empty, dicts = Map.empty,
     arrays = [defaultServiceList \<mapsto> initial_defaultServiceList],
     next_addr = 1, now = 0, sent = 0, draws = 0, trace = [] \<rparr>"

text \<open>
  A reference is always valid in the source language; the lookups below give an address
  that holds nothing the empty object.
\<close>

definition cfg_at :: "world \<Rightarrow> addr \<Rightarrow> config" where
  "cfg_at w a = (case cfgs w a of Some c \<Rightarrow> c | None \<Rightarrow> empty_config)"

definition dict_at :: "world \<Rightarrow> addr \<Rightarrow> (string \<times> string) list" where
  "dict_at w a = (case dicts w a of Some d \<Rightarrow> d | None \<Rightarrow> [])"

definition arr_at :: "world \<Rightarrow> addr \<Rightarrow> string list" where
  "arr_at w a = (case arrays w a of Some xs \<Rightarrow> xs | None \<Rightarrow> [])"

text \<open>\<open>obj[k] = v\<close> on a plain object: an existing property keeps its place.\<close>

fun dict_set :: "string \<Rightarrow> 'v \<Rightarrow> (string \<times> 'v) list \<Rightarrow> (string \<times> 'v) list" where
  "dict_set k v [] = [(k, v)]"
| "dict_set k v ((k', v') # kvs) =
     (if k' = k then (k, v) # kvs else (k', v') # dict_set k v kvs)"

definition new_dict :: "world \<Rightarrow> (string \<times> string) list \<Rightarrow> addr \<times> world" where
  "new_dict w d = (next_addr w, w\<lparr> dicts := (dicts w)(next_addr w \<mapsto> d),
                                   next_addr := Suc (next_addr w) \<rparr>)"

definition new_array :: "world \<Rightarrow> string list \<Rightarrow> addr \<times> world" where
  "new_array w xs = (next_addr w, w\<lparr> arrays := (arrays w)(next_addr w \<mapsto> xs),
                                     next_addr := Suc (next_addr w) \<rparr>)"

definition new_config :: "world \<Rightarrow> config \<Rightarrow> addr \<times> world" where
  "new_config w c = (next_addr w, w\<lparr> cfgs := (cfgs w)(next_addr w \<mapsto> c),
                                     next_addr := Suc (next_addr w) \<rparr>)"

definition set_config :: "addr \<Rightarrow> config \<Rightarrow> world \<Rightarrow> world" where
  "set_config a c w = w\<lparr> cfgs := (cfgs w)(a \<mapsto> c) \<rparr>"

subsection \<open>Numbers as text\<close>

definition digit_char :: "nat \<Rightarrow> char" where
  "digit_char n = char_of (48 + n)"

function show_nat :: "nat \<Rightarrow> string" where
  "show_nat n = (if n < 10 then [digit_char n] else show_nat (n div 10) @ [digit_char (n mod 10)])"
  by pat_completeness auto
termination
  by (relation "measure (\<lambda>n. n)") auto

declare show_nat.simps [simp del]

definition show_int :: "int \<Rightarrow> string" where
  "show_int i = (if i < 0 then CHR ''-'' # show_nat (nat (- i)) else show_nat (nat i))"

section \<open>The environment\<close>

text \<open>
  What a request is rejected with, as the error handler of \<open>axiosRequest\<close> receives it: a
  response (the response interceptor rejects with the response itself), a falsy value, or an
  error object that carries no \<open>status\<close> (an error raised by the transport when no
  response has arrived).
\<close>

datatype failure = Falsy | ErrorObject | Response AxiosResponse

text \<open>
  What the client consumes and this repository does not define is a parameter of the model:
  the location table (\<open>AlLocatorService.resolveURL\<close>, with its optional path), the two
  location identifiers the client names (\<open>AlLocation.InsightAPI\<close>, \<open>AlLocation.GlobalAPI\<close>),
  the outcome and the duration of the n-th transport call, and the n-th random draw.
  A transport outcome is a response (\<open>Inr\<close>), or, when the call fails without one, the
  value the call is rejected with (\<open>Inl\<close>).
\<close>

record env =
  resolveURL :: "string option \<Rightarrow> string option \<Rightarrow> string"
  InsightAPI :: string
  GlobalAPI :: string
  transport :: "nat \<Rightarrow> failure + AxiosResponse"
  latency :: "nat \<Rightarrow> nat"
  rnd :: "nat \<Rightarrow> nat"

section \<open>The ephemeral cache\<close>

text \<open>
  Modelled from the spec: the store behind \<open>AlCabinet.ephemeral\<close>, which the client uses
  and this repository does not define. An entry is a value with an absolute expiry, keyed
  by a string.
\<close>

record entry =
  cached :: jsval
  expires :: nat

type_synonym cabinet = "string \<rightharpoonup> entry"

text \<open>
  Modelled from the spec: \<open>get\<close> returns the value, or absent; an entry past its expiry is
  never returned, and is evicted.
\<close>

definition cabinet_get :: "nat \<Rightarrow> cabinet \<Rightarrow> string \<Rightarrow> jsval option \<times> cabinet" where
  "cabinet_get t s k =
     (case s k of
        None \<Rightarrow> (None, s)
      | Some e \<Rightarrow> if expires e < t then (None, s(k := None)) else (Some (cached e), s))"

text \<open>
  Modelled from the spec: \<open>set\<close> stores the value with a time to live, which the client
  passes in seconds.
\<close>

definition cabinet_set :: "nat \<Rightarrow> cabinet \<Rightarrow> string \<Rightarrow> jsval \<Rightarrow> nat \<Rightarrow> cabinet" where
  "cabinet_set t s k v seconds = s(k \<mapsto> \<lparr> cached = v, expires = t + seconds * 1000 \<rparr>)"

text \<open>Modelled from the spec: \<open>delete\<close> removes the entry of the key.\<close>

definition cabinet_delete :: "cabinet \<Rightarrow> string \<Rightarrow> cabinet" where
  "cabinet_delete s k = s(k := None)"

text \<open>Modelled from the spec: \<open>destroy\<close> (used by \<open>reset\<close>) clears the store.\<close>

definition cabinet_destroy :: "cabinet \<Rightarrow> cabinet" where
  "cabinet_destroy s = Map.empty"

text \<open>
  A promise of an endpoint collection. A rejection carries what the request was rejected
  with, or is a \<open>TypeError\<close> thrown by a handler.
\<close>

datatype rejection = Rejected failure | TypeError

datatype promise = Pending nat string addr addr | Fulfilled jsval | Failed rejection

text \<open>
  \<open>Pending n accountId serviceList request\<close> is a discovery lookup in flight: transport call
  number \<open>n\<close> has been sent for the descriptor at \<open>request\<close>, and the handlers waiting for
  it hold \<open>accountId\<close> and \<open>serviceList\<close>.
  What an asynchronous function gives its caller: a value, a rejection, or nothing, when it
  waits for a promise that never settles.
\<close>

datatype 'a outcome = Resolves 'a | Rejects rejection | Never

text \<open>One \<open>AlApiClient\<close> object.\<close>

record client =
  storage :: cabinet
  endpointResolution :: "string \<rightharpoonup> nat"
  promises :: "nat \<rightharpoonup> promise"
  next_promise :: nat
  globalServiceParams :: config
  defaultAccountId :: "string option"

definition getCachedValue :: "world \<Rightarrow> client \<Rightarrow> string \<Rightarrow> jsval option \<times> client" where
  "getCachedValue w c key =
     (case cabinet_get (now w) (storage c) key of (v, s) \<Rightarrow> (v, c\<lparr> storage := s \<rparr>))"

definition setCachedValue :: "world \<Rightarrow> client \<Rightarrow> string \<Rightarrow> jsval \<Rightarrow> int \<Rightarrow> client" where
  "setCachedValue w c key v ttl_ms =
     (if ttl_ms < 1000 then c
      else c\<lparr> storage := cabinet_set (now w) (storage c) key v (nat (ttl_ms div 1000)) \<rparr>)"

definition deleteCachedValue :: "client \<Rightarrow> string \<Rightarrow> client" where
  "deleteCachedValue c key = c\<lparr> storage := cabinet_delete (storage c) key \<rparr>"

section \<open>The retry engine\<close>

text \<open>
  \<open>attemptIndex >= config.retry_count\<close> is false when \<open>retry_count\<close> is \<open>NaN\<close> or \<open>undefined\<close>;
  \<open>error.status\<close> of an error object without one is \<open>undefined\<close>, which is neither equal to
  0 nor within a range. The attempt index is an integer: \<open>axiosRequest\<close>, the only caller,
  starts at 0 and adds 1.
\<close>

definition isRetryableError :: "failure \<Rightarrow> config \<Rightarrow> int \<Rightarrow> bool" where
  "isRetryableError error cfg attemptIndex =
     (case retry_count cfg of
        None \<Rightarrow> False
      | Some rc \<Rightarrow>
          if (case rc of Num n \<Rightarrow> attemptIndex \<ge> n | NaN \<Rightarrow> False | Undefined \<Rightarrow> False)
          then False
          else (case error of
                  Falsy \<Rightarrow> True
                | ErrorObject \<Rightarrow> False
                | Response r \<Rightarrow>
                    if status r = 0
                       \<or> (status r \<ge> 300 \<and> status r \<le> 399)
                       \<or> (status r \<ge> 500 \<and> status r \<le> 599)
                    then True else False))"

definition verbs :: "string list" where
  "verbs = [''debork'', ''breaker'', ''breaker-breaker'', ''fix'', ''unbork'', ''corex'', ''help'']"

text \<open>
  \<open>Math.floor(Math.random() * m)\<close> is the next draw reduced modulo \<open>m\<close>; \<open>Date.now()\<close> is
  the clock.
\<close>

definition generateCacheBuster :: "env \<Rightarrow> world \<Rightarrow> int \<Rightarrow> string \<times> world" where
  "generateCacheBuster E w attemptIndex =
     (let verb = verbs ! (rnd E (draws w) mod length verbs);
          hash = show_nat (now w mod 60000) @ show_nat (rnd E (Suc (draws w)) mod 100000)
      in (verb @ ''-'' @ hash @ ''-'' @ show_int attemptIndex,
          w\<lparr> draws := draws w + 2 \<rparr>))"

definition onRequestError :: "AxiosResponse \<Rightarrow> failure + AxiosResponse" where
  "onRequestError errorResponse = Inl (Response errorResponse)"

definition onRequestResponse :: "AxiosResponse \<Rightarrow> failure + AxiosResponse" where
  "onRequestResponse response =
     (if status response < 200 \<or> status response \<ge> 400 then onRequestError response
      else Inr response)"

text \<open>
  The body is serialised when the request is sent, so the snapshot holds the contents of a
  referenced array at that moment.
\<close>

definition freeze :: "world \<Rightarrow> jsval \<Rightarrow> jsval" where
  "freeze w v = (case v of VList a \<Rightarrow> VArr (map VStr (arr_at w a)) | _ \<Rightarrow> v)"

definition snapshot :: "world \<Rightarrow> addr \<Rightarrow> request" where
  "snapshot w a =
     (let c = cfg_at w a
      in \<lparr> rq_method = http_method c, rq_url = url c,
           rq_params = map_option (dict_at w) (params c),
           rq_body = map_option (freeze w) (req_data c) \<rparr>)"

text \<open>
  The configured axios instance applied to a descriptor: the call is sent, takes its time,
  and its response goes through the response interceptor (\<open>validateStatus\<close> accepts every
  status, so every response does); no handler is registered for a call that fails without
  a response, so what it is rejected with is passed on. No event subscriber is registered.
  \<open>Inl\<close> is a rejection, \<open>Inr\<close> a resolution.
\<close>

definition ax_send :: "world \<Rightarrow> addr \<Rightarrow> int \<Rightarrow> nat \<times> world" where
  "ax_send w a attemptIndex =
     (sent w, w\<lparr> sent := Suc (sent w),
                  trace := trace w @ [Sent (snapshot w a) attemptIndex] \<rparr>)"

definition ax_receive :: "env \<Rightarrow> nat \<Rightarrow> failure + AxiosResponse" where
  "ax_receive E n = (case transport E n of Inl f \<Rightarrow> Inl f | Inr r \<Rightarrow> onRequestResponse r)"

definition ax :: "env \<Rightarrow> world \<Rightarrow> addr \<Rightarrow> int
    \<Rightarrow> world \<times> (failure + AxiosResponse)" where
  "ax E w a attemptIndex =
     (case ax_send w a attemptIndex of
        (n, w1) \<Rightarrow> (w1\<lparr> now := now w1 + latency E n \<rparr>, ax_receive E n))"

text \<open>
  Modelled from the spec: \<open>AlStopwatch.once(callback, delay)\<close>, which this repository does not
  define, runs the callback once the delay has passed (at once for a negative delay).
\<close>

definition stopwatch_once :: "int \<Rightarrow> world \<Rightarrow> world" where
  "stopwatch_once delay w = w\<lparr> now := now w + nat delay, trace := trace w @ [Waited delay] \<rparr>"

text \<open>\<open>config.params = config.params || {}; config.params.breaker = b\<close>.\<close>

definition set_breaker :: "addr \<Rightarrow> string \<Rightarrow> world \<Rightarrow> world" where
  "set_breaker a b w =
     (case params (cfg_at w a) of
        Some p \<Rightarrow> w\<lparr> dicts := (dicts w)(p \<mapsto> dict_set ''breaker'' b (dict_at w p)) \<rparr>
      | None \<Rightarrow>
          (case new_dict w [] of (p, w') \<Rightarrow>
             (set_config a ((cfg_at w' a)\<lparr> params := Some p \<rparr>) w')
               \<lparr> dicts := (dicts w')(p \<mapsto> [(''breaker'', b)]) \<rparr>))"

definition retry_step :: "env \<Rightarrow> world \<Rightarrow> addr \<Rightarrow> int \<Rightarrow> world" where
  "retry_step E w a attemptIndex =
     (let cfg = cfg_at w a;
          delay = (case retry_interval cfg of
                     None \<Rightarrow> 1000
                   | Some ri \<Rightarrow> if ri \<noteq> 0 then ri else 1000) * attemptIndex;
          w1 = stopwatch_once delay w
      in case generateCacheBuster E w1 attemptIndex of (b, w2) \<Rightarrow> set_breaker a b w2)"

text \<open>
  The chain of attempts need not end: with a \<open>retry_count\<close> that is \<open>NaN\<close> or \<open>undefined\<close>
  every retryable failure is retried. \<open>None\<close> is a chain that never settles; from here on
  \<open>None\<close> is a call that never comes to an end.
\<close>

partial_function (option) axiosRequest :: "env \<Rightarrow> world \<Rightarrow> addr \<Rightarrow> int
    \<Rightarrow> (world \<times> (failure + AxiosResponse)) option" where
  "axiosRequest E w a attemptIndex =
     (case ax E w a attemptIndex of
        (w1, Inr response) \<Rightarrow> Some (w1, Inr response)
      | (w1, Inl error) \<Rightarrow>
          if isRetryableError error (cfg_at w1 a) attemptIndex
          then axiosRequest E (retry_step E w1 a (attemptIndex + 1)) a (attemptIndex + 1 + 1)
          else Some (w1, Inl error))"

text \<open>What the handlers of \<open>axiosRequest\<close> do once the outcome of the attempt is there.\<close>

definition axiosRequest_settled :: "env \<Rightarrow> world \<Rightarrow> addr \<Rightarrow> int
    \<Rightarrow> failure + AxiosResponse
    \<Rightarrow> (world \<times> (failure + AxiosResponse)) option" where
  "axiosRequest_settled E w a attemptIndex res =
     (case res of
        Inr response \<Rightarrow> Some (w, Inr response)
      | Inl error \<Rightarrow>
          if isRetryableError error (cfg_at w a) attemptIndex
          then axiosRequest E (retry_step E w a (attemptIndex + 1)) a (attemptIndex + 1 + 1)
          else Some (w, Inl error))"

section \<open>Property access on values\<close>

text \<open>
  The own property names of an array or a string are its indices and \<open>length\<close>;
  \<open>Object.keys\<close> lists the indices. Property names of a plain object are kept in insertion
  order (no service is named like an array index).
\<close>

definition index_names :: "nat \<Rightarrow> string list" where
  "index_names n = map show_nat [0..<n]"

definition js_keys :: "world \<Rightarrow> jsval \<Rightarrow> string list" where
  "js_keys w v =
     (case v of
        VObj kvs \<Rightarrow> map fst kvs
      | VArr xs \<Rightarrow> index_names (length xs)
      | VList a \<Rightarrow> index_names (length (arr_at w a))
      | VStr s \<Rightarrow> index_names (length s)
      | _ \<Rightarrow> [])"

definition js_hasOwn :: "world \<Rightarrow> jsval \<Rightarrow> string \<Rightarrow> bool" where
  "js_hasOwn w v k =
     (case v of
        VObj kvs \<Rightarrow> k \<in> set (map fst kvs)
      | VArr xs \<Rightarrow> k \<in> set (index_names (length xs)) \<or> k = ''length''
      | VList a \<Rightarrow> k \<in> set (index_names (length (arr_at w a))) \<or> k = ''length''
      | VStr s \<Rightarrow> k \<in> set (index_names (length s)) \<or> k = ''length''
      | _ \<Rightarrow> False)"

text \<open>\<open>v[k]\<close>; \<open>None\<close> is \<open>undefined\<close>.\<close>

definition js_get :: "world \<Rightarrow> jsval \<Rightarrow> string \<Rightarrow> jsval option" where
  "js_get w v k =
     (case v of
        VObj kvs \<Rightarrow> map_of kvs k
      | VArr xs \<Rightarrow> if k = ''length'' then Some (VNum (int (length xs)))
                   else map_of (zip (index_names (length xs)) xs) k
      | VList a \<Rightarrow> if k = ''length'' then Some (VNum (int (length (arr_at w a))))
                    else map_of (zip (index_names (length (arr_at w a))) (map VStr (arr_at w a))) k
      | VStr s \<Rightarrow> if k = ''length'' then Some (VNum (int (length s)))
                   else map_of (zip (index_names (length s)) (map (\<lambda>ch. VStr [ch]) s)) k
      | _ \<Rightarrow> None)"

text \<open>\<open>Object.entries\<close>; it throws on \<open>null\<close>.\<close>

definition js_entries :: "world \<Rightarrow> jsval \<Rightarrow> (string \<times> jsval) list option" where
  "js_entries w v =
     (case v of
        VNull \<Rightarrow> None
      | VObj kvs \<Rightarrow> Some kvs
      | VArr xs \<Rightarrow> Some (zip (index_names (length xs)) xs)
      | VList a \<Rightarrow> Some (zip (index_names (length (arr_at w a))) (map VStr (arr_at w a)))
      | VStr s \<Rightarrow> Some (zip (index_names (length s)) (map (\<lambda>ch. VStr [ch]) s))
      | _ \<Rightarrow> Some [])"

fun join_with :: "string \<Rightarrow> string list \<Rightarrow> string" where
  "join_with sep [] = []"
| "join_with sep [x] = x"
| "join_with sep (x # y # xs) = x @ sep @ join_with sep (y # xs)"

text \<open>The string a value becomes when it is concatenated to one.\<close>

fun js_string :: "world \<Rightarrow> jsval \<Rightarrow> string"
  and js_strings :: "world \<Rightarrow> jsval list \<Rightarrow> string list" where
  "js_string w VNull = ''null''"
| "js_string w (VBool b) = (if b then ''true'' else ''false'')"
| "js_string w (VNum n) = show_int n"
| "js_string w (VStr s) = s"
| "js_string w (VObj kvs) = ''[object Object]''"
| "js_string w (VArr xs) = join_with '','' (js_strings w xs)"
| "js_string w (VList a) = join_with '','' (arr_at w a)"
| "js_strings w [] = []"
| "js_strings w (x # xs) = (if x = VNull then [] else js_string w x) # js_strings w xs"

definition js_string_opt :: "world \<Rightarrow> jsval option \<Rightarrow> string" where
  "js_string_opt w v = (case v of None \<Rightarrow> ''undefined'' | Some x \<Rightarrow> js_string w x)"

section \<open>Endpoint resolution\<close>

definition endpoints_cacheKey :: "string \<Rightarrow> string" where
  "endpoints_cacheKey accountId = ''/endpoints/'' @ accountId"

definition startsWith :: "string \<Rightarrow> string \<Rightarrow> bool" where
  "startsWith s pre = (take (length pre) s = pre)"

text \<open>
  The loop of the success handler over \<open>Object.entries(response.data)\<close>. A host that is not a
  string has no \<open>startsWith\<close>: the handler throws (\<open>None\<close>).
\<close>

fun translate :: "(string \<times> jsval) list \<Rightarrow> (string \<times> jsval) list
    \<Rightarrow> (string \<times> jsval) list option" where
  "translate [] translated = Some translated"
| "translate ((serviceName, endpointHost) # rest) translated =
     (case endpointHost of
        VStr h \<Rightarrow>
          translate rest
            (dict_set serviceName
               (VStr (if startsWith h ''http'' then h else ''https://'' @ h)) translated)
      | _ \<Rightarrow> None)"

fun serviceLocations_of :: "env \<Rightarrow> string list \<Rightarrow> (string \<times> jsval) list
    \<Rightarrow> (string \<times> jsval) list" where
  "serviceLocations_of E [] serviceLocations = serviceLocations"
| "serviceLocations_of E (serviceId # rest) serviceLocations =
     serviceLocations_of E rest
       (dict_set serviceId (VStr (resolveURL E (Some (InsightAPI E)) None)) serviceLocations)"

definition endpointsRequest :: "env \<Rightarrow> string \<Rightarrow> addr \<Rightarrow> config" where
  "endpointsRequest E accountId serviceList =
     empty_config\<lparr> http_method := Some ''POST'',
       url := Some (resolveURL E (Some (GlobalAPI E))
                (Some (''/endpoints/v1/'' @ accountId @ ''/residency/default/endpoints''))),
       req_data := Some (VList serviceList) \<rparr>"

text \<open>
  \<open>getServiceEndpoints\<close> up to the transport call: a truthy cached value is returned as it is
  (\<open>Inl\<close>); otherwise the request object is built (\<open>Inr\<close>, its address).
\<close>

definition getServiceEndpoints_begin :: "env \<Rightarrow> world \<Rightarrow> client \<Rightarrow> string \<Rightarrow> addr
    \<Rightarrow> world \<times> client \<times> (jsval + addr)" where
  "getServiceEndpoints_begin E w c accountId serviceList =
     (case getCachedValue w c (endpoints_cacheKey accountId) of
        (cachedv, c1) \<Rightarrow>
          (case (case cachedv of Some v \<Rightarrow> if truthy v then Some v else None | None \<Rightarrow> None) of
             Some v \<Rightarrow> (w, c1, Inl v)
           | None \<Rightarrow>
               (case new_config w (endpointsRequest E accountId serviceList) of
                  (ra, w1) \<Rightarrow> (w1, c1, Inr ra))))"

text \<open>The two handlers given to \<open>then\<close>: on a response, and on a failure.\<close>

definition getServiceEndpoints_then :: "env \<Rightarrow> world \<Rightarrow> client \<Rightarrow> string \<Rightarrow> addr
    \<Rightarrow> failure + AxiosResponse \<Rightarrow> client \<times> (rejection + jsval)" where
  "getServiceEndpoints_then E w c accountId serviceList res =
     (case res of
        Inr response \<Rightarrow>
          (case js_entries w (data response) of
             None \<Rightarrow> (c, Inl TypeError)
           | Some entries \<Rightarrow>
               (case translate entries [] of
                  None \<Rightarrow> (c, Inl TypeError)
                | Some translated \<Rightarrow>
                    (setCachedValue w c (endpoints_cacheKey accountId) (VObj translated)
                       (15 * 60 * 1000),
                     Inr (VObj translated))))
      | Inl error \<Rightarrow>
          (let serviceLocations = serviceLocations_of E (arr_at w serviceList) []
           in (setCachedValue w c (endpoints_cacheKey accountId) (VList serviceList)
                 (5 * 60 * 1000),
               Inr (VObj serviceLocations))))"

definition getServiceEndpoints :: "env \<Rightarrow> world \<Rightarrow> client \<Rightarrow> string \<Rightarrow> addr
    \<Rightarrow> (world \<times> client \<times> (rejection + jsval)) option" where
  "getServiceEndpoints E w c accountId serviceList =
     (case getServiceEndpoints_begin E w c accountId serviceList of
        (w1, c1, Inl cachedv) \<Rightarrow> Some (w1, c1, Inr cachedv)
      | (w1, c1, Inr ra) \<Rightarrow>
          (case axiosRequest E w1 ra 0 of
             None \<Rightarrow> None
           | Some (w2, res) \<Rightarrow>
               (case getServiceEndpoints_then E w2 c1 accountId serviceList res of
                  (c2, out) \<Rightarrow> Some (w2, c2, out))))"

definition new_promise :: "client \<Rightarrow> promise \<Rightarrow> nat \<times> client" where
  "new_promise c p = (next_promise c, c\<lparr> promises := (promises c)(next_promise c \<mapsto> p),
                                        next_promise := Suc (next_promise c) \<rparr>)"

definition settled :: "rejection + jsval \<Rightarrow> promise" where
  "settled out = (case out of Inl r \<Rightarrow> Failed r | Inr v \<Rightarrow> Fulfilled v)"

text \<open>
  \<open>prepare\<close> calls \<open>getServiceEndpoints\<close> and keeps the promise it returns. How far the lookup
  has come when the caller goes on is a parameter: \<open>run_now\<close> lets it run to completion (one
  logical call at a time), \<open>run_async\<close> returns as the source does, when the request is sent.
\<close>

type_synonym runner = "world \<Rightarrow> client \<Rightarrow> string \<Rightarrow> addr \<Rightarrow> (world \<times> client \<times> nat) option"

definition run_now :: "env \<Rightarrow> runner" where
  "run_now E w c accountId serviceList =
     (case getServiceEndpoints E w c accountId serviceList of
        None \<Rightarrow> None
      | Some (w1, c1, out) \<Rightarrow>
          (case new_promise c1 (settled out) of (p, c2) \<Rightarrow> Some (w1, c2, p)))"

definition run_async :: "env \<Rightarrow> runner" where
  "run_async E w c accountId serviceList =
     (case getServiceEndpoints_begin E w c accountId serviceList of
        (w1, c1, Inl cachedv) \<Rightarrow>
          (case new_promise c1 (Fulfilled cachedv) of (p, c2) \<Rightarrow> Some (w1, c2, p))
      | (w1, c1, Inr ra) \<Rightarrow>
          (case ax_send w1 ra 0 of
             (n, w2) \<Rightarrow>
               (case new_promise c1 (Pending n accountId serviceList ra) of
                  (p, c2) \<Rightarrow> Some (w2, c2, p))))"

text \<open>\<open>a || b || "0"\<close>: an absent or empty string is falsy.\<close>

definition prepare_accountId :: "client \<Rightarrow> config \<Rightarrow> string" where
  "prepare_accountId c requestParams =
     (case account_id requestParams of
        Some a \<Rightarrow> if a \<noteq> [] then a
                  else (case defaultAccountId c of
                          Some d \<Rightarrow> if d \<noteq> [] then d else ''0'' | None \<Rightarrow> ''0'')
      | None \<Rightarrow> (case defaultAccountId c of
                   Some d \<Rightarrow> if d \<noteq> [] then d else ''0'' | None \<Rightarrow> ''0''))"

text \<open>
  The only caller passes a truthy \<open>service_name\<close>; an absent one reads as a property name the
  way JavaScript renders it.
\<close>

definition requested_service :: "config \<Rightarrow> string" where
  "requested_service requestParams =
     (case service_name requestParams of Some n \<Rightarrow> n | None \<Rightarrow> ''undefined'')"

definition array_push :: "addr \<Rightarrow> string \<Rightarrow> world \<Rightarrow> world" where
  "array_push a x w = w\<lparr> arrays := (arrays w)(a \<mapsto> arr_at w a @ [x]) \<rparr>"

text \<open>\<open>prepare\<close> up to its \<open>await\<close>.\<close>

definition prepare_head :: "runner \<Rightarrow> world \<Rightarrow> client \<Rightarrow> string \<Rightarrow> config
    \<Rightarrow> (world \<times> client) option" where
  "prepare_head run w c accountId requestParams =
     (if endpointResolution c accountId = None
      then (let serviceList = defaultServiceList;
                w1 = (if requested_service requestParams \<notin> set (arr_at w serviceList)
                      then array_push serviceList (requested_service requestParams) w
                      else w)
            in case run w1 c accountId serviceList of
                 None \<Rightarrow> None
               | Some (w2, c2, p) \<Rightarrow>
                   Some (w2, c2\<lparr> endpointResolution := (endpointResolution c2)(accountId \<mapsto> p) \<rparr>))
      else Some (w, c))"

datatype returned = ReturnsValue jsval | ReturnsPromise nat | Throws rejection

text \<open>\<open>prepare\<close> after its \<open>await\<close>, with the collection the promise gave.\<close>

definition prepare_tail :: "runner \<Rightarrow> world \<Rightarrow> client \<Rightarrow> string \<Rightarrow> config \<Rightarrow> jsval
    \<Rightarrow> (world \<times> client \<times> returned) option" where
  "prepare_tail run w c accountId requestParams collection =
     (if collection = VNull then Some (w, c, Throws TypeError)
      else if js_hasOwn w collection (requested_service requestParams)
      then Some (w, c, ReturnsValue collection)
      else (let c1 = deleteCachedValue c (''/endpoints/'' @ accountId)
            in case new_array w (js_keys w collection @ [requested_service requestParams]) of
                 (serviceList, w1) \<Rightarrow>
                   (case run w1 c1 accountId serviceList of
                      None \<Rightarrow> None
                    | Some (w2, c2, p) \<Rightarrow>
                        Some (w2, c2\<lparr> endpointResolution := (endpointResolution c2)(accountId \<mapsto> p) \<rparr>,
                              ReturnsPromise p))))"

definition await :: "client \<Rightarrow> nat \<Rightarrow> jsval outcome" where
  "await c p =
     (case promises c p of
        Some (Fulfilled v) \<Rightarrow> Resolves v
      | Some (Failed r) \<Rightarrow> Rejects r
      | _ \<Rightarrow> Never)"

definition prepare :: "env \<Rightarrow> world \<Rightarrow> client \<Rightarrow> config
    \<Rightarrow> (world \<times> client \<times> jsval outcome) option" where
  "prepare E w c requestParams =
     (let accountId = prepare_accountId c requestParams
      in case prepare_head (run_now E) w c accountId requestParams of
           None \<Rightarrow> None
         | Some (w1, c1) \<Rightarrow>
             (case endpointResolution c1 accountId of
                None \<Rightarrow> Some (w1, c1, Rejects TypeError)
              | Some p \<Rightarrow>
                  (case await c1 p of
                     Resolves collection \<Rightarrow>
                       (case prepare_tail (run_now E) w1 c1 accountId requestParams collection of
                          None \<Rightarrow> None
                        | Some (w2, c2, ReturnsValue v) \<Rightarrow> Some (w2, c2, Resolves v)
                        | Some (w2, c2, ReturnsPromise q) \<Rightarrow> Some (w2, c2, await c2 q)
                        | Some (w2, c2, Throws r) \<Rightarrow> Some (w2, c2, Rejects r))
                   | Rejects r \<Rightarrow> Some (w1, c1, Rejects r)
                   | Never \<Rightarrow> Some (w1, c1, Never))))"

section \<open>Request normalization\<close>

definition truthy_string :: "string option \<Rightarrow> bool" where
  "truthy_string s = (case s of Some x \<Rightarrow> x \<noteq> [] | None \<Rightarrow> False)"

definition calculateRequestURL :: "env \<Rightarrow> world \<Rightarrow> client \<Rightarrow> config
    \<Rightarrow> (world \<times> client \<times> string outcome) option" where
  "calculateRequestURL E w c ps =
     (case (if truthy_string (service_name ps) \<and> service_stack ps = Some (InsightAPI E)
               \<and> noEndpointsResolution ps \<noteq> Some True
            then (case prepare E w c ps of
                    None \<Rightarrow> None
                  | Some (w1, c1, Resolves serviceCollection) \<Rightarrow>
                      Some (w1, c1, Resolves (js_string_opt w1
                                     (js_get w1 serviceCollection (requested_service ps))))
                  | Some (w1, c1, Rejects r) \<Rightarrow> Some (w1, c1, Rejects r)
                  | Some (w1, c1, Never) \<Rightarrow> Some (w1, c1, Never))
            else Some (w, c, Resolves (resolveURL E (service_stack ps) None))) of
        None \<Rightarrow> None
      | Some (w1, c1, Resolves fullPath) \<Rightarrow>
          (let fullPath1 = (if truthy_string (service_name ps)
                            then fullPath @ ''/'' @ requested_service ps else fullPath);
               fullPath2 = (case version ps of
                              Some (VerStr v) \<Rightarrow> if v \<noteq> [] then fullPath1 @ ''/'' @ v else fullPath1
                            | Some (VerNum n) \<Rightarrow> if n \<noteq> 0 \<and> n > 0
                                                 then fullPath1 @ ''/v'' @ show_int n else fullPath1
                            | None \<Rightarrow> fullPath1);
               fullPath3 = (case account_id ps of
                              Some a \<Rightarrow> if a \<noteq> [] \<and> a \<noteq> ''0'' then fullPath2 @ ''/'' @ a else fullPath2
                            | None \<Rightarrow> fullPath2);
               fullPath4 = (case path ps of
                              Some p \<Rightarrow> if length p > 0
                                        then fullPath3 @ (if hd p = CHR ''/'' then [] else ''/'') @ p
                                        else fullPath3
                            | None \<Rightarrow> fullPath3)
           in Some (w1, c1, Resolves fullPath4))
      | Some (w1, c1, Rejects r) \<Rightarrow> Some (w1, c1, Rejects r)
      | Some (w1, c1, Never) \<Rightarrow> Some (w1, c1, Never))"

text \<open>\<open>Object.assign({}, g, c)\<close>: every own property of \<open>c\<close>, and those of \<open>g\<close> that \<open>c\<close> lacks.\<close>

definition over :: "'a option \<Rightarrow> 'a option \<Rightarrow> 'a option" where
  "over g x = (case x of Some v \<Rightarrow> Some v | None \<Rightarrow> g)"

definition object_assign :: "config \<Rightarrow> config \<Rightarrow> config" where
  "object_assign g c =
     \<lparr> http_method = over (http_method g) (http_method c), url = over (url g) (url c),
       headers = over (headers g) (headers c), params = over (params g) (params c),
       req_data = over (req_data g) (req_data c),
       service_stack = over (service_stack g) (service_stack c),
       service_name = over (service_name g) (service_name c),
       residency = over (residency g) (residency c), version = over (version g) (version c),
       account_id = over (account_id g) (account_id c), path = over (path g) (path c),
       noEndpointsResolution = over (noEndpointsResolution g) (noEndpointsResolution c),
       ttl = over (ttl g) (ttl c), retry_count = over (retry_count g) (retry_count c),
       retry_interval = over (retry_interval g) (retry_interval c),
       accept_header = over (accept_header g) (accept_header c),
       response_type = over (response_type g) (response_type c),
       responseType = over (responseType g) (responseType c) \<rparr>"

text \<open>The deprecated shorthands, folded in place into the object at \<open>a\<close>.\<close>

definition fold_accept_header :: "addr \<Rightarrow> world \<Rightarrow> world" where
  "fold_accept_header a w =
     (case accept_header (cfg_at w a) of
        None \<Rightarrow> w
      | Some acc \<Rightarrow>
          if acc = [] then w
          else (case (case headers (cfg_at w a) of
                        Some h \<Rightarrow> (h, w)
                      | None \<Rightarrow>
                          (case new_dict w [] of
                             (h, w1) \<Rightarrow> (h, set_config a ((cfg_at w1 a)\<lparr> headers := Some h \<rparr>) w1))) of
                  (h, w2) \<Rightarrow>
                    (let w3 = w2\<lparr> dicts := (dicts w2)(h \<mapsto> dict_set ''Accept'' acc (dict_at w2 h)) \<rparr>
                     in set_config a ((cfg_at w3 a)\<lparr> accept_header := None \<rparr>) w3)))"

definition fold_response_type :: "addr \<Rightarrow> world \<Rightarrow> world" where
  "fold_response_type a w =
     (case response_type (cfg_at w a) of
        None \<Rightarrow> w
      | Some rt \<Rightarrow>
          if rt = [] then w
          else set_config a ((cfg_at w a)\<lparr> responseType := Some rt, response_type := None \<rparr>) w)"

definition normalizeRequest :: "env \<Rightarrow> world \<Rightarrow> client \<Rightarrow> addr
    \<Rightarrow> (world \<times> client \<times> addr outcome) option" where
  "normalizeRequest E w c config =
     (case (if service_name (cfg_at w config) \<noteq> None \<or> service_stack (cfg_at w config) \<noteq> None
            then (case new_config w (object_assign (globalServiceParams c) (cfg_at w config)) of
                    (config', w1) \<Rightarrow>
                      (case calculateRequestURL E w1 c (cfg_at w1 config') of
                         None \<Rightarrow> None
                       | Some (w2, c2, Resolves u) \<Rightarrow>
                           Some (set_config config' ((cfg_at w2 config')\<lparr> url := Some u \<rparr>) w2, c2,
                                 Resolves config')
                       | Some (w2, c2, Rejects r) \<Rightarrow> Some (w2, c2, Rejects r)
                       | Some (w2, c2, Never) \<Rightarrow> Some (w2, c2, Never)))
            else Some (w, c, Resolves config)) of
        None \<Rightarrow> None
      | Some (w3, c3, Resolves config'') \<Rightarrow>
          Some (fold_response_type config'' (fold_accept_header config'' w3), c3, Resolves config'')
      | Some (w3, c3, Rejects r) \<Rightarrow> Some (w3, c3, Rejects r)
      | Some (w3, c3, Never) \<Rightarrow> Some (w3, c3, Never))"

section \<open>The request methods\<close>

text \<open>
  \<open>encodeURIComponent\<close> on the bytes of a string: letters, digits and \<open>-_.!~*'()\<close> stay, every
  other byte becomes \<open>%XX\<close>.
\<close>

definition hex_digit :: "nat \<Rightarrow> char" where
  "hex_digit n = (if n < 10 then char_of (48 + n) else char_of (55 + n))"

definition unreserved :: "char \<Rightarrow> bool" where
  "unreserved ch =
     (let n = of_char ch :: nat
      in (65 \<le> n \<and> n \<le> 90) \<or> (97 \<le> n \<and> n \<le> 122) \<or> (48 \<le> n \<and> n \<le> 57)
         \<or> ch \<in> set ''-_.!~*()'' \<or> n = 39)"

definition encodeURIComponent :: "string \<Rightarrow> string" where
  "encodeURIComponent s =
     concat (map (\<lambda>ch. if unreserved ch then [ch]
                        else [CHR ''%'', hex_digit (of_char ch div 16), hex_digit (of_char ch mod 16)]) s)"

text \<open>
  The query string built in \<open>get\<close>. A parameter value is held as the string it renders to.
\<close>

definition queryString :: "(string \<times> string) list \<Rightarrow> string" where
  "queryString ps = join_with ''&'' (map (\<lambda>(p, v). p @ ''='' @ encodeURIComponent v) ps)"

definition set_method :: "addr \<Rightarrow> string \<Rightarrow> world \<Rightarrow> world" where
  "set_method a m w = set_config a ((cfg_at w a)\<lparr> http_method := Some m \<rparr>) w"

definition get_fullUrl :: "world \<Rightarrow> addr \<Rightarrow> string" where
  "get_fullUrl w config =
     (let queryParams = (case params (cfg_at w config) of
                           Some p \<Rightarrow> queryString (dict_at w p)
                         | None \<Rightarrow> [])
      in ''normalized.url'' @ (if length queryParams > 0 then ''?'' @ queryParams else []))"

definition get_cacheTTL :: "config \<Rightarrow> int" where
  "get_cacheTTL normalized =
     (case ttl normalized of
        Some (TtlNum n) \<Rightarrow> if n > 0 then n else 0
      | Some (TtlBool b) \<Rightarrow> if b then 60000 else 0
      | None \<Rightarrow> 0)"

definition get :: "env \<Rightarrow> world \<Rightarrow> client \<Rightarrow> addr
    \<Rightarrow> (world \<times> client \<times> jsval outcome) option" where
  "get E w c config =
     (case normalizeRequest E (set_method config ''GET'' w) c config of
        None \<Rightarrow> None
      | Some (w1, c1, Resolves normalized) \<Rightarrow>
          (let fullUrl = get_fullUrl w1 config;
               cacheTTL = get_cacheTTL (cfg_at w1 normalized)
           in case (if cacheTTL \<noteq> 0
                    then (case getCachedValue w1 c1 fullUrl of
                            (Some v, c2) \<Rightarrow> if truthy v then (Some v, c2) else (None, c2)
                          | (None, c2) \<Rightarrow> (None, c2))
                    else (None, c1)) of
                (Some cachedValue, c2) \<Rightarrow> Some (w1, c2, Resolves cachedValue)
              | (None, c2) \<Rightarrow>
                  (case axiosRequest E w1 normalized 0 of
                     None \<Rightarrow> None
                   | Some (w2, Inr response) \<Rightarrow>
                       Some (w2,
                             if cacheTTL \<noteq> 0
                             then setCachedValue w2 c2 fullUrl (data response) cacheTTL else c2,
                             Resolves (data response))
                   | Some (w2, Inl error) \<Rightarrow> Some (w2, c2, Rejects (Rejected error))))
      | Some (w1, c1, Rejects r) \<Rightarrow> Some (w1, c1, Rejects r)
      | Some (w1, c1, Never) \<Rightarrow> Some (w1, c1, Never))"

text \<open>
  What \<open>post\<close>, \<open>form\<close>, \<open>put\<close> and \<open>delete\<close> share once the method is set: normalize, delete the
  cache entry keyed by the normalized URL (an absent URL reads as a key the way JavaScript
  renders it), send.
\<close>

definition url_key :: "string option \<Rightarrow> string" where
  "url_key u = (case u of Some x \<Rightarrow> x | None \<Rightarrow> ''undefined'')"

definition write_request :: "env \<Rightarrow> world \<Rightarrow> client \<Rightarrow> addr
    \<Rightarrow> (world \<times> client \<times> jsval outcome) option" where
  "write_request E w c config =
     (case normalizeRequest E w c config of
        None \<Rightarrow> None
      | Some (w1, c1, Resolves normalized) \<Rightarrow>
          (let c2 = deleteCachedValue c1 (url_key (url (cfg_at w1 normalized)))
           in case axiosRequest E w1 normalized 0 of
                None \<Rightarrow> None
              | Some (w2, Inr response) \<Rightarrow> Some (w2, c2, Resolves (data response))
              | Some (w2, Inl error) \<Rightarrow> Some (w2, c2, Rejects (Rejected error)))
      | Some (w1, c1, Rejects r) \<Rightarrow> Some (w1, c1, Rejects r)
      | Some (w1, c1, Never) \<Rightarrow> Some (w1, c1, Never))"

definition post :: "env \<Rightarrow> world \<Rightarrow> client \<Rightarrow> addr
    \<Rightarrow> (world \<times> client \<times> jsval outcome) option" where
  "post E w c config = write_request E (set_method config ''POST'' w) c config"

definition form :: "env \<Rightarrow> world \<Rightarrow> client \<Rightarrow> addr
    \<Rightarrow> (world \<times> client \<times> jsval outcome) option" where
  "form E w c config =
     (case new_dict (set_method config ''POST'' w) [(''Content-Type'', ''multipart/form-data'')] of
        (h, w1) \<Rightarrow>
          write_request E (set_config config ((cfg_at w1 config)\<lparr> headers := Some h \<rparr>) w1) c config)"

definition put :: "env \<Rightarrow> world \<Rightarrow> client \<Rightarrow> addr
    \<Rightarrow> (world \<times> client \<times> jsval outcome) option" where
  "put E w c config = write_request E (set_method config ''PUT'' w) c config"

definition delete :: "env \<Rightarrow> world \<Rightarrow> client \<Rightarrow> addr
    \<Rightarrow> (world \<times> client \<times> jsval outcome) option" where
  "delete E w c config = write_request E (set_method config ''DELETE'' w) c config"

definition defaultServiceParams :: "env \<Rightarrow> config" where
  "defaultServiceParams E =
     empty_config\<lparr> service_stack := Some (InsightAPI E), residency := Some ''default'',
                   version := Some (VerStr ''v1''), ttl := Some (TtlBool False) \<rparr>"

definition new_client :: "env \<Rightarrow> client" where
  "new_client E = \<lparr> storage = Map.empty, endpointResolution = Map.empty, promises = Map.empty,
                    next_promise = 0, globalServiceParams = defaultServiceParams E,
                    defaultAccountId = None \<rparr>"

section \<open>Overlapping calls of prepare\<close>

text \<open>
  Execution is single-threaded and yields only at an \<open>await\<close>. A call of \<open>prepare\<close> runs to its
  \<open>await\<close> and is suspended there; when the response to a discovery lookup arrives its
  handlers run and its promise settles; a suspended call whose promise has settled is
  resumed and runs to its end. \<open>suspended\<close> holds the calls waiting, in the order they
  arrived, each with the promise it waits for; \<open>finished\<close> what the resumed calls returned.
\<close>

record tasks =
  t_world :: world
  t_client :: client
  suspended :: "(nat option \<times> string \<times> config) list"
  finished :: "returned list"

definition call_prepare :: "env \<Rightarrow> config \<Rightarrow> tasks \<Rightarrow> tasks option" where
  "call_prepare E requestParams s =
     (let accountId = prepare_accountId (t_client s) requestParams
      in case prepare_head (run_async E) (t_world s) (t_client s) accountId requestParams of
           None \<Rightarrow> None
         | Some (w1, c1) \<Rightarrow>
             Some (s\<lparr> t_world := w1, t_client := c1,
                      suspended := suspended s @ [(endpointResolution c1 accountId, accountId, requestParams)] \<rparr>))"

text \<open>The response to the lookup behind promise \<open>p\<close> arrives.\<close>

definition deliver :: "env \<Rightarrow> nat \<Rightarrow> tasks \<Rightarrow> tasks option" where
  "deliver E p s =
     (case promises (t_client s) p of
        Some (Pending n accountId serviceList ra) \<Rightarrow>
          (case axiosRequest_settled E (t_world s) ra 0 (ax_receive E n) of
             None \<Rightarrow> None
           | Some (w1, res) \<Rightarrow>
               (case getServiceEndpoints_then E w1 (t_client s) accountId serviceList res of
                  (c1, out) \<Rightarrow>
                    Some (s\<lparr> t_world := w1,
                             t_client := c1\<lparr> promises := (promises c1)(p \<mapsto> settled out) \<rparr> \<rparr>)))
      | _ \<Rightarrow> Some s)"

definition is_settled :: "client \<Rightarrow> nat option \<Rightarrow> bool" where
  "is_settled c po =
     (case po of
        None \<Rightarrow> True
      | Some p \<Rightarrow> (case promises c p of Some (Fulfilled v) \<Rightarrow> True
                                       | Some (Failed r) \<Rightarrow> True
                                       | _ \<Rightarrow> False))"

text \<open>The first suspended call whose promise has settled, and the calls left.\<close>

fun next_ready :: "client \<Rightarrow> (nat option \<times> string \<times> config) list
    \<Rightarrow> ((nat option \<times> string \<times> config) \<times> (nat option \<times> string \<times> config) list) option" where
  "next_ready c [] = None"
| "next_ready c (t # ts) =
     (if is_settled c (fst t) then Some (t, ts)
      else (case next_ready c ts of None \<Rightarrow> None | Some (r, rest) \<Rightarrow> Some (r, t # rest)))"

definition resume :: "env \<Rightarrow> tasks \<Rightarrow> tasks option" where
  "resume E s =
     (case next_ready (t_client s) (suspended s) of
        None \<Rightarrow> Some s
      | Some ((po, accountId, requestParams), rest) \<Rightarrow>
          (case (case po of None \<Rightarrow> Rejects TypeError | Some p \<Rightarrow> await (t_client s) p) of
             Resolves collection \<Rightarrow>
               (case prepare_tail (run_async E) (t_world s) (t_client s) accountId requestParams
                       collection of
                  None \<Rightarrow> None
                | Some (w1, c1, ret) \<Rightarrow>
                    Some (s\<lparr> t_world := w1, t_client := c1, suspended := rest,
                             finished := finished s @ [ret] \<rparr>))
           | Rejects r \<Rightarrow> Some (s\<lparr> suspended := rest, finished := finished s @ [Throws r] \<rparr>)
           | Never \<Rightarrow> Some s))"

text \<open>The discovery lookups of an account that are in flight.\<close>

definition in_flight :: "client \<Rightarrow> string \<Rightarrow> nat list" where
  "in_flight c accountId =
     filter (\<lambda>p. case promises c p of
                   Some (Pending n a l r) \<Rightarrow> a = accountId
                 | _ \<Rightarrow> False) [0..<next_promise c]"

fun attempts_of :: "event list \<Rightarrow> int list" where
  "attempts_of [] = []"
| "attempts_of (Sent r i # es) = i # attempts_of es"
| "attempts_of (Waited d # es) = attempts_of es"

fun delays_of :: "event list \<Rightarrow> int list" where
  "delays_of [] = []"
| "delays_of (Sent r i # es) = delays_of es"
| "delays_of (Waited d # es) = d # delays_of es"

fun requests_of :: "event list \<Rightarrow> request list" where
  "requests_of [] = []"
| "requests_of (Sent r i # es) = r # requests_of es"
| "requests_of (Waited d # es) = requests_of es"

section \<open>Derived notions used to state the properties\<close>

text \<open>
  \<open>counted w a\<close>: the descriptor at \<open>a\<close> has no \<open>retry_count\<close>, or one that is an integer; its
  retry budget is then that integer, and zero when it declares none.
\<close>

definition counted :: "world \<Rightarrow> addr \<Rightarrow> bool" where
  "counted w a = (case retry_count (cfg_at w a) of
                    None \<Rightarrow> True | Some (Num rc) \<Rightarrow> True | Some NaN \<Rightarrow> False
                  | Some Undefined \<Rightarrow> False)"

definition budget :: "world \<Rightarrow> addr \<Rightarrow> int" where
  "budget w a = (case retry_count (cfg_at w a) of Some (Num rc) \<Rightarrow> rc | _ \<Rightarrow> 0)"



text \<open>
  The world once a discovery lookup for \<open>accountId\<close> with the list at \<open>serviceList\<close> has been
  sent and answered: the request object is allocated, the call is on the trace.
\<close>

definition looked_up :: "env \<Rightarrow> world \<Rightarrow> string \<Rightarrow> addr \<Rightarrow> world" where
  "looked_up E w accountId serviceList =
     w\<lparr> cfgs := (cfgs w)(next_addr w \<mapsto> endpointsRequest E accountId serviceList),
        next_addr := Suc (next_addr w),
        sent := Suc (sent w),
        trace := trace w @ [Sent \<lparr> rq_method = Some ''POST'',
            rq_url = Some (resolveURL E (Some (GlobalAPI E))
                (Some (''/endpoints/v1/'' @ accountId @ ''/residency/default/endpoints''))),
            rq_params = None,
            rq_body = Some (VArr (map VStr (arr_at w serviceList))) \<rparr> 0],
        now := now w + latency E (sent w) \<rparr>"

text \<open>
  \<open>grown w w'\<close>: nothing was freed, and the static default service list of \<open>w'\<close> is that of
  \<open>w\<close> with names appended.
\<close>

definition grown :: "world \<Rightarrow> world \<Rightarrow> bool" where
  "grown w w' \<longleftrightarrow> next_addr w \<le> next_addr w'
      \<and> (\<exists>ext. arr_at w' defaultServiceList = arr_at w defaultServiceList @ ext)"

text \<open>
  \<open>kept w w'\<close>: nothing was freed, no header or parameter object changed, and every
  descriptor that existed in \<open>w\<close> is as it was.
\<close>

definition kept :: "world \<Rightarrow> world \<Rightarrow> bool" where
  "kept w w' \<longleftrightarrow> next_addr w \<le> next_addr w' \<and> dicts w' = dicts w
      \<and> (\<forall>a. a < next_addr w \<longrightarrow> cfgs w' a = cfgs w a)"

text \<open>
  \<open>later w w'\<close>: \<open>w'\<close> is the process state after any number of further calls of the request
  methods that came to an end, by any client objects, in any environment.
\<close>

inductive later :: "world \<Rightarrow> world \<Rightarrow> bool" where
  later_now: "later w w"
| later_get: "later w w1 \<Longrightarrow> get E w1 c a = Some (w2, c2, out) \<Longrightarrow> later w w2"
| later_post: "later w w1 \<Longrightarrow> post E w1 c a = Some (w2, c2, out) \<Longrightarrow> later w w2"
| later_form: "later w w1 \<Longrightarrow> form E w1 c a = Some (w2, c2, out) \<Longrightarrow> later w w2"
| later_put: "later w w1 \<Longrightarrow> put E w1 c a = Some (w2, c2, out) \<Longrightarrow> later w w2"
| later_delete: "later w w1 \<Longrightarrow> delete E w1 c a = Some (w2, c2, out) \<Longrightarrow> later w w2"

section \<open>Example inputs\<close>

text \<open>
  An environment whose location table maps a location identifier to a host named after it,
  with a given transport, no latency and constant random draws.
\<close>

definition example_env :: "(nat \<Rightarrow> failure + AxiosResponse) \<Rightarrow> env" where
  "example_env tr =
     \<lparr> resolveURL = (\<lambda>s p. ''https://'' @ (case s of None \<Rightarrow> ''undefined'' | Some x \<Rightarrow> x)
                          @ (case p of None \<Rightarrow> [] | Some q \<Rightarrow> q)),
       InsightAPI = ''insight'', GlobalAPI = ''global'',
       transport = tr, latency = (\<lambda>n. 0), rnd = (\<lambda>n. 0) \<rparr>"

text \<open>A transport that answers every call with the same status and an empty body.\<close>

definition always :: "int \<Rightarrow> nat \<Rightarrow> failure + AxiosResponse" where
  "always st n = Inr \<lparr> status = st, data = VNull \<rparr>"

definition retry_cfg :: config where
  "retry_cfg = empty_config\<lparr> url := Some ''https://api.example.com/x'',
                             retry_count := Some (Num 3), retry_interval := Some 1000 \<rparr>"



text \<open>The initial heap with one descriptor, at address 1.\<close>

definition world_with :: "config \<Rightarrow> world" where
  "world_with cfg = initial_world\<lparr> cfgs := [1 \<mapsto> cfg], next_addr := 2 \<rparr>"

text \<open>A fresh client that has cached one value for a minute.\<close>

definition client_caching :: "string \<Rightarrow> jsval \<Rightarrow> client" where
  "client_caching k v =
     setCachedValue initial_world (new_client (example_env (always 200))) k v 60000"

text \<open>A discovery service that knows two services.\<close>

definition discovery_ok :: "nat \<Rightarrow> failure + AxiosResponse" where
  "discovery_ok n = Inr \<lparr> status = 200,
      data = VObj [(''aims'', VStr ''api.example.com''), (''x'', VStr ''https://x.example.com'')] \<rparr>"

definition service_cfg :: "string \<Rightarrow> string \<Rightarrow> config" where
  "service_cfg name acc = empty_config\<lparr> service_stack := Some ''insight'',
      service_name := Some name, account_id := Some acc \<rparr>"

text \<open>A first discovery lookup for account 2 that fails with status 503.\<close>

definition failing_lookup :: "(world \<times> client \<times> (rejection + jsval)) option" where
  "failing_lookup = getServiceEndpoints (example_env (always 503)) initial_world
      (new_client (example_env (always 503))) ''2'' defaultServiceList"

text \<open>
  A cached read of a URL, a write to it, and a second cached read, each with a descriptor
  of its own; the transport answers the first call with \<open>old\<close> and every later one with \<open>new\<close>.
\<close>

definition old_then_new :: "nat \<Rightarrow> failure + AxiosResponse" where
  "old_then_new n = Inr \<lparr> status = 200, data = VStr (if n = 0 then ''old'' else ''new'') \<rparr>"

definition read_cfg :: "string \<Rightarrow> config" where
  "read_cfg u = empty_config\<lparr> url := Some u, ttl := Some (TtlNum 60000) \<rparr>"

definition write_cfg :: "string \<Rightarrow> config" where
  "write_cfg u = empty_config\<lparr> url := Some u, req_data := Some (VStr ''payload'') \<rparr>"

definition rwr_world :: world where
  "rwr_world = initial_world\<lparr> cfgs := [1 \<mapsto> read_cfg ''https://api.example.com/x'',
                                         2 \<mapsto> write_cfg ''https://api.example.com/x'',
                                         3 \<mapsto> read_cfg ''https://api.example.com/x''],
                                next_addr := 4 \<rparr>"

definition after_read :: "(world \<times> client \<times> jsval outcome) option" where
  "after_read = get (example_env old_then_new) rwr_world (new_client (example_env old_then_new)) 1"

definition after_write :: "(world \<times> client \<times> jsval outcome) option" where
  "after_write = (case after_read of
                    None \<Rightarrow> None
                  | Some (w, c, out) \<Rightarrow> post (example_env old_then_new) w c 2)"

definition after_reread :: "(world \<times> client \<times> jsval outcome) option" where
  "after_reread = (case after_write of
                     None \<Rightarrow> None
                   | Some (w, c, out) \<Rightarrow> get (example_env old_then_new) w c 3)"



text \<open>
  A client whose endpoint map for account 2 is resolved and knows \<open>aims\<close> only.
\<close>

definition resolved_client :: client where
  "resolved_client = (new_client (example_env discovery_ok))
     \<lparr> endpointResolution := [''2'' \<mapsto> 0],
       promises := [0 \<mapsto> Fulfilled (VObj [(''aims'', VStr ''https://api.example.com'')])],
       next_promise := 1 \<rparr>"

text \<open>
  Two cacheable reads with different URLs and equal query parameters, each with a
  descriptor and a parameter object of its own.
\<close>

definition query_world :: world where
  "query_world = initial_world
     \<lparr> cfgs := [1 \<mapsto> (read_cfg ''https://api.example.com/users'')\<lparr> params := Some 3 \<rparr>,
                2 \<mapsto> (read_cfg ''https://api.example.com/orders'')\<lparr> params := Some 4 \<rparr>],
       dicts := [3 \<mapsto> [(''q'', ''a b'')], 4 \<mapsto> [(''q'', ''a b'')]],
       next_addr := 5 \<rparr>"

definition first_get :: "(world \<times> client \<times> jsval outcome) option" where
  "first_get = get (example_env old_then_new) query_world (new_client (example_env old_then_new)) 1"

text \<open>
  Three calls of \<open>prepare\<close> for account 2, for the services \<open>x\<close>, \<open>y\<close> and \<open>z\<close>, made before
  the first lookup is answered; then the answer arrives and the three calls are resumed.
\<close>

definition three_calls :: "tasks option" where
  "three_calls =
     Option.bind
       (Option.bind
          (call_prepare (example_env discovery_ok) (service_cfg ''x'' ''2'')
             \<lparr> t_world = initial_world, t_client = new_client (example_env discovery_ok),
               suspended = [], finished = [] \<rparr>)
          (call_prepare (example_env discovery_ok) (service_cfg ''y'' ''2'')))
       (call_prepare (example_env discovery_ok) (service_cfg ''z'' ''2''))"

definition three_resumed :: "tasks option" where
  "three_resumed =
     Option.bind
       (Option.bind
          (Option.bind
             (Option.bind three_calls (deliver (example_env discovery_ok) 0))
             (resume (example_env discovery_ok)))
          (resume (example_env discovery_ok)))
       (resume (example_env discovery_ok))"

section \<open>Properties: the retry engine\<close>

lemma axiosRequest_resolved:
  "ax E w a i = (w1, Inr r) \<Longrightarrow> axiosRequest E w a i = Some (w1, Inr r)"
  by (subst axiosRequest.simps) simp

lemma axiosRequest_retry:
  "ax E w a i = (w1, Inl e) \<Longrightarrow> isRetryableError e (cfg_at w1 a) i \<Longrightarrow>
   axiosRequest E w a i = axiosRequest E (retry_step E w1 a (i + 1)) a (i + 1 + 1)"
  by (subst axiosRequest.simps) simp

lemma axiosRequest_rejected:
  "ax E w a i = (w1, Inl e) \<Longrightarrow> \<not> isRetryableError e (cfg_at w1 a) i \<Longrightarrow>
   axiosRequest E w a i = Some (w1, Inl e)"
  by (subst axiosRequest.simps) simp

lemma axiosRequest_unfold:
  "axiosRequest E w a i =
     (case ax E w a i of (w1, res) \<Rightarrow> axiosRequest_settled E w1 a i res)"
  by (subst axiosRequest.simps) (simp add: axiosRequest_settled_def split: prod.splits sum.splits)

lemmas retry_evals = world_with_def example_env_def always_def retry_cfg_def initial_world_def
  empty_config_def cfg_at_def isRetryableError_def onRequestResponse_def onRequestError_def
  ax_def ax_send_def ax_receive_def Let_def retry_step_def stopwatch_once_def
  generateCacheBuster_def set_breaker_def new_dict_def set_config_def dict_at_def snapshot_def

text \<open>
  C1. With \<open>retry_count = 3\<close> and \<open>retry_interval = 1000\<close> and a transport that always answers
  503, the claim expects four attempts with delays of 1000, 2000 and 3000 ms. The attempt
  index is incremented twice for each retry (once before the delay is computed, once more
  in the recursive call), so the request is sent three times, with attempt indices 0, 2
  and 4 and delays of 1000 and 3000 ms, and is then rejected with the last response.
\<close>

theorem axiosRequest_503_three_attempts:
  "\<exists>w'. axiosRequest (example_env (always 503)) (world_with retry_cfg) 1 0
          = Some (w', Inl (Response \<lparr> status = 503, data = VNull \<rparr>))
   \<and> attempts_of (trace w') = [0, 2, 4]
   \<and> delays_of (trace w') = [1000, 3000]"
proof -
  define E where "E = example_env (always 503)"
  define e where "e = Response \<lparr> status = 503, data = VNull \<rparr>"
  define w1 where "w1 = fst (ax E (world_with retry_cfg) 1 0)"
  define w2 where "w2 = retry_step E w1 1 (0 + 1)"
  define w3 where "w3 = fst (ax E w2 1 (0 + 1 + 1))"
  define w4 where "w4 = retry_step E w3 1 (0 + 1 + 1 + 1)"
  define w5 where "w5 = fst (ax E w4 1 (0 + 1 + 1 + 1 + 1))"
  have a1: "ax E (world_with retry_cfg) 1 0 = (w1, Inl e)"
    by (simp add: w1_def e_def E_def retry_evals)
  have r1: "isRetryableError e (cfg_at w1 1) 0"
    by (simp add: w1_def e_def E_def retry_evals)
  have a2: "ax E w2 1 (0 + 1 + 1) = (w3, Inl e)"
    by (simp add: w3_def e_def E_def example_env_def always_def ax_def ax_send_def
        ax_receive_def onRequestResponse_def onRequestError_def)
  have r2: "isRetryableError e (cfg_at w3 1) (0 + 1 + 1)"
    by (simp add: w3_def w2_def w1_def e_def E_def retry_evals)
  have a3: "ax E w4 1 (0 + 1 + 1 + 1 + 1) = (w5, Inl e)"
    by (simp add: w5_def e_def E_def example_env_def always_def ax_def ax_send_def
        ax_receive_def onRequestResponse_def onRequestError_def)
  have r3: "\<not> isRetryableError e (cfg_at w5 1) (0 + 1 + 1 + 1 + 1)"
    by (simp add: w5_def w4_def w3_def w2_def w1_def e_def E_def retry_evals)
  have "axiosRequest E (world_with retry_cfg) 1 0 = Some (w5, Inl e)"
    using axiosRequest_retry [OF a1 r1] axiosRequest_retry [OF a2 r2]
      axiosRequest_rejected [OF a3 r3]
    by (simp add: w2_def w4_def)
  moreover have "attempts_of (trace w5) = [0, 2, 4]"
    by (simp add: w5_def w4_def w3_def w2_def w1_def E_def retry_evals)
  moreover have "delays_of (trace w5) = [1000, 3000]"
    by (simp add: w5_def w4_def w3_def w2_def w1_def E_def retry_evals)
  ultimately show ?thesis
    by (simp add: e_def E_def)
qed

text \<open>
  What holds of every call whose \<open>retry_count\<close> is absent or an integer: it comes to an end,
  the attempt indices of the logical request increase strictly, and with a retry budget of
  \<open>rc\<close> at most \<open>rc + 1\<close> attempts are made.
\<close>

lemma attempts_of_append [simp]: "attempts_of (xs @ ys) = attempts_of xs @ attempts_of ys"
  by (induction xs rule: attempts_of.induct) auto

lemma ax_trace: "trace (fst (ax E w a i)) = trace w @ [Sent (snapshot w a) i]"
  by (simp add: ax_def ax_send_def)

lemma ax_retry_count: "retry_count (cfg_at (fst (ax E w a i)) a) = retry_count (cfg_at w a)"
  by (simp add: ax_def ax_send_def cfg_at_def)

lemma set_breaker_retry_count:
  "retry_count (cfg_at (set_breaker a b w) a) = retry_count (cfg_at w a)"
  by (simp add: set_breaker_def cfg_at_def set_config_def new_dict_def split: option.splits)

lemma set_breaker_trace: "trace (set_breaker a b w) = trace w"
  by (simp add: set_breaker_def set_config_def new_dict_def split: option.splits)

lemma retry_step_facts:
  "retry_count (cfg_at (retry_step E w a i) a) = retry_count (cfg_at w a)
   \<and> (\<exists>d. trace (retry_step E w a i) = trace w @ [Waited d])"
proof -
  obtain b v2 where g: "generateCacheBuster E
        (stopwatch_once ((case retry_interval (cfg_at w a) of None \<Rightarrow> 1000
            | Some ri \<Rightarrow> if ri \<noteq> 0 then ri else 1000) * i) w) i = (b, v2)"
    by (cases "generateCacheBuster E
        (stopwatch_once ((case retry_interval (cfg_at w a) of None \<Rightarrow> 1000
            | Some ri \<Rightarrow> if ri \<noteq> 0 then ri else 1000) * i) w) i") auto
  then have v2: "cfgs v2 = cfgs w"
      "trace v2 = trace w @ [Waited ((case retry_interval (cfg_at w a) of None \<Rightarrow> 1000
            | Some ri \<Rightarrow> if ri \<noteq> 0 then ri else 1000) * i)]"
    by (auto simp: generateCacheBuster_def stopwatch_once_def Let_def)
  have r: "retry_step E w a i = set_breaker a b v2"
    using g by (simp add: retry_step_def Let_def)
  have "cfg_at v2 a = cfg_at w a"
    using v2(1) by (simp add: cfg_at_def)
  then show ?thesis
    using v2(2) by (simp add: r set_breaker_retry_count set_breaker_trace)
qed

lemma retry_step_retry_count:
  "retry_count (cfg_at (retry_step E (fst (ax E w a i)) a j) a) = retry_count (cfg_at w a)"
  using retry_step_facts [of E "fst (ax E w a i)" a j] by (simp add: ax_retry_count)

lemma axiosRequest_returns:
  assumes "counted w a"
  shows "\<exists>y. axiosRequest E w a i = Some y"
  using assms
proof (induction "nat (budget w a - i)" arbitrary: w i rule: less_induct)
  case less
  obtain w1 res where ax1: "ax E w a i = (w1, res)"
    by (cases "ax E w a i") auto
  have b1: "retry_count (cfg_at w1 a) = retry_count (cfg_at w a)"
    using ax_retry_count [of E w a i] ax1 by simp
  show ?case
  proof (cases res)
    case (Inr r)
    then show ?thesis using ax1 by (simp add: axiosRequest_resolved)
  next
    case (Inl e)
    show ?thesis
    proof (cases "isRetryableError e (cfg_at w1 a) i")
      case False
      then show ?thesis using ax1 Inl by (simp add: axiosRequest_rejected)
    next
      case True
      define w2 where "w2 = retry_step E w1 a (i + 1)"
      have b2: "retry_count (cfg_at w2 a) = retry_count (cfg_at w a)"
        using retry_step_retry_count [of E w a i "i + 1"] ax1 by (simp add: w2_def)
      from True less.prems obtain rc where rc: "retry_count (cfg_at w1 a) = Some (Num rc)" "i < rc"
        by (auto simp: isRetryableError_def counted_def b1 split: option.splits jsnumber.splits if_splits)
      have bw: "budget w a = rc" "budget w2 a = rc" "counted w2 a"
        using rc b1 b2 by (simp_all add: budget_def counted_def)
      have "\<exists>y. axiosRequest E w2 a (i + 1 + 1) = Some y"
        using less.hyps [of w2 "i + 1 + 1"] bw rc(2) by simp
      then show ?thesis
        using ax1 Inl True by (simp add: axiosRequest_retry w2_def)
    qed
  qed
qed

lemma axiosRequest_attempts:
  assumes "axiosRequest E w a i = Some y"
  shows "counted w a \<longrightarrow>
     (\<exists>ext. trace (fst y) = trace w @ ext
       \<and> sorted_wrt (<) (attempts_of ext)
       \<and> (\<forall>j \<in> set (attempts_of ext). i \<le> j)
       \<and> int (length (attempts_of ext)) \<le> 1 + max 0 (budget w a - i))"
proof (rule axiosRequest.raw_induct [where P = "\<lambda>E w a i y. counted w a \<longrightarrow>
     (\<exists>ext. trace (fst y) = trace w @ ext
       \<and> sorted_wrt (<) (attempts_of ext)
       \<and> (\<forall>j \<in> set (attempts_of ext). i \<le> j)
       \<and> int (length (attempts_of ext)) \<le> 1 + max 0 (budget w a - i))", OF _ assms])
  fix f E w a i y
  assume ih: "\<And>E w a i y. f E w a i = Some y \<Longrightarrow> counted w a \<longrightarrow>
     (\<exists>ext. trace (fst y) = trace w @ ext
       \<and> sorted_wrt (<) (attempts_of ext)
       \<and> (\<forall>j \<in> set (attempts_of ext). i \<le> j)
       \<and> int (length (attempts_of ext)) \<le> 1 + max 0 (budget w a - i))"
    and body: "(case ax E w a i of
        (w1, Inl error) \<Rightarrow>
          if isRetryableError error (cfg_at w1 a) i
          then f E (retry_step E w1 a (i + 1)) a (i + 1 + 1) else Some (w1, Inl error)
      | (w1, Inr response) \<Rightarrow> Some (w1, Inr response)) = Some y"
  show "counted w a \<longrightarrow>
     (\<exists>ext. trace (fst y) = trace w @ ext
       \<and> sorted_wrt (<) (attempts_of ext)
       \<and> (\<forall>j \<in> set (attempts_of ext). i \<le> j)
       \<and> int (length (attempts_of ext)) \<le> 1 + max 0 (budget w a - i))"
  proof
    assume cnt: "counted w a"
    obtain w1 res where ax1: "ax E w a i = (w1, res)"
      by (cases "ax E w a i") auto
    have t1: "trace w1 = trace w @ [Sent (snapshot w a) i]"
      using ax_trace [of E w a i] ax1 by simp
    have b1: "retry_count (cfg_at w1 a) = retry_count (cfg_at w a)"
      using ax_retry_count [of E w a i] ax1 by simp
    have single: "sorted_wrt (<) (attempts_of [Sent (snapshot w a) i])
       \<and> (\<forall>j \<in> set (attempts_of [Sent (snapshot w a) i]). i \<le> j)
       \<and> int (length (attempts_of [Sent (snapshot w a) i])) \<le> 1 + max 0 (budget w a - i)"
      by simp
    show "\<exists>ext. trace (fst y) = trace w @ ext
       \<and> sorted_wrt (<) (attempts_of ext)
       \<and> (\<forall>j \<in> set (attempts_of ext). i \<le> j)
       \<and> int (length (attempts_of ext)) \<le> 1 + max 0 (budget w a - i)"
    proof (cases res)
      case (Inr r)
      then have "y = (w1, Inr r)"
        using body ax1 by simp
      then show ?thesis using t1 single by auto
    next
      case (Inl e)
      show ?thesis
      proof (cases "isRetryableError e (cfg_at w1 a) i")
        case False
        then have "y = (w1, Inl e)"
          using body ax1 Inl by simp
        then show ?thesis using t1 single by auto
      next
        case True
        define w2 where "w2 = retry_step E w1 a (i + 1)"
        have eq: "f E w2 a (i + 1 + 1) = Some y"
          using body ax1 Inl True by (simp add: w2_def)
        obtain d where t2: "trace w2 = trace w1 @ [Waited d]"
          and b2: "retry_count (cfg_at w2 a) = retry_count (cfg_at w1 a)"
          using retry_step_facts [of E w1 a "i + 1"] by (auto simp: w2_def)
        from True cnt obtain rc where rc: "retry_count (cfg_at w1 a) = Some (Num rc)" "i < rc"
          by (auto simp: isRetryableError_def counted_def b1
              split: option.splits jsnumber.splits if_splits)
        have bw: "budget w a = rc" "budget w2 a = rc" "counted w2 a"
          using rc b1 b2 by (simp_all add: budget_def counted_def)
        from ih [OF eq] bw(3)
        obtain ext where ext: "trace (fst y) = trace w2 @ ext"
            "sorted_wrt (<) (attempts_of ext)"
            "\<forall>j \<in> set (attempts_of ext). i + 1 + 1 \<le> j"
            "int (length (attempts_of ext)) \<le> 1 + max 0 (budget w2 a - (i + 1 + 1))"
          by blast
        have len: "int (length (attempts_of ([Sent (snapshot w a) i] @ [Waited d] @ ext)))
                     \<le> 1 + max 0 (budget w a - i)"
          using ext(4) rc(2) bw by simp
        have srt: "sorted_wrt (<) (attempts_of ([Sent (snapshot w a) i] @ [Waited d] @ ext))"
          using ext(2,3) by auto
        have low: "\<forall>j \<in> set (attempts_of ([Sent (snapshot w a) i] @ [Waited d] @ ext)). i \<le> j"
          using ext(3) by auto
        have "trace (fst y) = trace w @ ([Sent (snapshot w a) i] @ [Waited d] @ ext)"
          using ext(1) t1 t2 by simp
        then show ?thesis
          using len srt low by blast
      qed
    qed
  qed
qed

lemma axiosRequest_attempts_bounded:
  assumes "retry_count (cfg_at w a) = Some (Num rc)" "0 \<le> rc"
  shows "\<exists>w' res ext. axiosRequest E w a 0 = Some (w', res)
     \<and> trace w' = trace w @ ext
     \<and> sorted_wrt (<) (attempts_of ext)
     \<and> int (length (attempts_of ext)) \<le> rc + 1"
proof -
  have cnt: "counted w a"
    using assms by (simp add: counted_def)
  then obtain y where y: "axiosRequest E w a 0 = Some y"
    using axiosRequest_returns by blast
  from axiosRequest_attempts [OF y] cnt assms
  obtain ext where "trace (fst y) = trace w @ ext" "sorted_wrt (<) (attempts_of ext)"
      "int (length (attempts_of ext)) \<le> rc + 1"
    by (auto simp: budget_def)
  then show ?thesis
    using y by (cases y) auto
qed

text \<open>
  With a \<open>retry_count\<close> that is present and is no number, a call whose every attempt fails
  with a retryable failure never comes to an end.
\<close>

lemma axiosRequest_never_aux:
  assumes "axiosRequest E w a i = Some y"
  shows "\<not> (\<not> counted w a \<and> (\<forall>n. ax_receive E n = Inl (Response \<lparr> status = 503, data = VNull \<rparr>)))"
proof (rule axiosRequest.raw_induct [where P = "\<lambda>E w a i y.
      \<not> (\<not> counted w a \<and> (\<forall>n. ax_receive E n = Inl (Response \<lparr> status = 503, data = VNull \<rparr>)))",
      OF _ assms])
  fix f E w a i y
  assume ih: "\<And>E w a i y. f E w a i = Some y \<Longrightarrow>
      \<not> (\<not> counted w a \<and> (\<forall>n. ax_receive E n = Inl (Response \<lparr> status = 503, data = VNull \<rparr>)))"
    and body: "(case ax E w a i of
        (w1, Inl error) \<Rightarrow>
          if isRetryableError error (cfg_at w1 a) i
          then f E (retry_step E w1 a (i + 1)) a (i + 1 + 1) else Some (w1, Inl error)
      | (w1, Inr response) \<Rightarrow> Some (w1, Inr response)) = Some y"
  show "\<not> (\<not> counted w a \<and> (\<forall>n. ax_receive E n = Inl (Response \<lparr> status = 503, data = VNull \<rparr>)))"
  proof
    assume h: "\<not> counted w a \<and> (\<forall>n. ax_receive E n = Inl (Response \<lparr> status = 503, data = VNull \<rparr>))"
    define w1 where "w1 = fst (ax E w a i)"
    have ax1: "ax E w a i = (w1, Inl (Response \<lparr> status = 503, data = VNull \<rparr>))"
      using h by (simp add: w1_def ax_def split: prod.splits)
    have b1: "retry_count (cfg_at w1 a) = retry_count (cfg_at w a)"
      using ax_retry_count [of E w a i] by (simp add: w1_def)
    have r: "isRetryableError (Response \<lparr> status = 503, data = VNull \<rparr>) (cfg_at w1 a) i"
      using h by (auto simp: isRetryableError_def counted_def b1 split: option.splits jsnumber.splits)
    have eq: "f E (retry_step E w1 a (i + 1)) a (i + 1 + 1) = Some y"
      using body ax1 r by simp
    have "\<not> counted (retry_step E w1 a (i + 1)) a"
      using h retry_step_retry_count [of E w a i "i + 1"] by (simp add: counted_def w1_def)
    with ih [OF eq] h show False by blast
  qed
qed

lemma axiosRequest_never:
  assumes "\<not> counted w a"
      and "\<forall>n. ax_receive E n = Inl (Response \<lparr> status = 503, data = VNull \<rparr>)"
  shows "axiosRequest E w a i = None"
  using axiosRequest_never_aux [of E w a i] assms by (cases "axiosRequest E w a i") auto




section \<open>Properties: the cache\<close>

text \<open>
  C6, as stated: after a \<open>set\<close> with a time to live below 1000 ms an immediate \<open>get\<close> of the key
  returns absent. It fails where the key already holds a live entry: the \<open>set\<close> changes
  nothing, and the \<open>get\<close> returns the entry that was there.
\<close>

theorem setCachedValue_short_ttl_counterexample:
  "setCachedValue initial_world (client_caching ''k'' (VStr ''old'')) ''k'' (VStr ''new'') 999
     = client_caching ''k'' (VStr ''old'')
   \<and> fst (getCachedValue initial_world
            (setCachedValue initial_world (client_caching ''k'' (VStr ''old''))
               ''k'' (VStr ''new'') 999) ''k'')
     = Some (VStr ''old'')"
  by (simp add: setCachedValue_def getCachedValue_def cabinet_get_def cabinet_set_def
      client_caching_def new_client_def initial_world_def)

text \<open>
  C6, amended: for every key, value and time to live below 1000 ms, \<open>setCachedValue\<close> leaves
  the client (and so the store) as it was; an immediate \<open>get\<close> of the key returns what a
  \<open>get\<close> before the \<open>set\<close> returned, and so absent when the key was absent before.
\<close>

theorem setCachedValue_short_ttl:
  "ttl_ms < 1000 \<Longrightarrow>
     setCachedValue w c key v ttl_ms = c
     \<and> getCachedValue w (setCachedValue w c key v ttl_ms) key = getCachedValue w c key
     \<and> (fst (getCachedValue w c key) = None
          \<longrightarrow> fst (getCachedValue w (setCachedValue w c key v ttl_ms) key) = None)"
  by (simp add: setCachedValue_def)

theorem setCachedValue_short_ttl_witness:
  "(999::int) < 1000
   \<and> setCachedValue initial_world (new_client (example_env (always 200))) ''k'' (VStr ''new'') 999
       = new_client (example_env (always 200))
   \<and> fst (getCachedValue initial_world (new_client (example_env (always 200))) ''k'') = None
   \<and> fst (getCachedValue initial_world
        (setCachedValue initial_world (new_client (example_env (always 200)))
           ''k'' (VStr ''new'') 999) ''k'') = None"
  using setCachedValue_short_ttl
    [of 999 initial_world "new_client (example_env (always 200))" "''k''" "VStr ''new''"]
  by (simp add: getCachedValue_def cabinet_get_def new_client_def)

section \<open>Properties: endpoint resolution\<close>

text \<open>
  A request without a \<open>retry_count\<close> is sent once; the discovery lookup is such a request,
  so \<open>getServiceEndpoints\<close> and \<open>prepare\<close> always come to an end.
\<close>

lemma axiosRequest_no_retry:
  "retry_count (cfg_at w a) = None \<Longrightarrow> axiosRequest E w a i = Some (ax E w a i)"
  by (subst axiosRequest.simps)
     (auto simp: isRetryableError_def ax_def ax_send_def cfg_at_def split: prod.splits sum.splits)

lemma getServiceEndpoints_miss:
  assumes "\<not> (\<exists>v. fst (getCachedValue w c (endpoints_cacheKey accountId)) = Some v \<and> truthy v)"
  shows "getServiceEndpoints E w c accountId serviceList =
     Some (looked_up E w accountId serviceList,
      fst (getServiceEndpoints_then E (looked_up E w accountId serviceList)
             (snd (getCachedValue w c (endpoints_cacheKey accountId))) accountId serviceList
             (ax_receive E (sent w))),
      snd (getServiceEndpoints_then E (looked_up E w accountId serviceList)
             (snd (getCachedValue w c (endpoints_cacheKey accountId))) accountId serviceList
             (ax_receive E (sent w))))"
proof -
  obtain cv c1 where g: "getCachedValue w c (endpoints_cacheKey accountId) = (cv, c1)"
    by (cases "getCachedValue w c (endpoints_cacheKey accountId)") auto
  with assms have miss: "(case cv of Some v \<Rightarrow> if truthy v then Some v else None | None \<Rightarrow> None) = None"
    by (auto split: option.splits)
  have rc: "retry_count (cfg_at (snd (new_config w (endpointsRequest E accountId serviceList)))
               (next_addr w)) = None"
    by (simp add: new_config_def cfg_at_def endpointsRequest_def empty_config_def)
  have axw: "ax E (snd (new_config w (endpointsRequest E accountId serviceList))) (next_addr w) 0
      = (looked_up E w accountId serviceList, ax_receive E (sent w))"
    by (simp add: ax_def ax_send_def new_config_def looked_up_def snapshot_def cfg_at_def
        endpointsRequest_def empty_config_def freeze_def arr_at_def)
  have req: "axiosRequest E (snd (new_config w (endpointsRequest E accountId serviceList))) (next_addr w) 0
      = Some (looked_up E w accountId serviceList, ax_receive E (sent w))"
    using axiosRequest_no_retry [OF rc, of E 0] axw by simp
  show ?thesis
    using g miss req
    by (simp add: getServiceEndpoints_def getServiceEndpoints_begin_def new_config_def
        split: prod.splits)
qed

lemma getServiceEndpoints_hit:
  assumes "fst (getCachedValue w c (endpoints_cacheKey accountId)) = Some v" "truthy v"
  shows "getServiceEndpoints E w c accountId serviceList =
     Some (w, snd (getCachedValue w c (endpoints_cacheKey accountId)), Inr v)"
  using assms
  by (cases "getCachedValue w c (endpoints_cacheKey accountId)")
     (simp add: getServiceEndpoints_def getServiceEndpoints_begin_def)

lemma getServiceEndpoints_returns: "\<exists>r. getServiceEndpoints E w c acc l = Some r"
proof (cases "\<exists>v. fst (getCachedValue w c (endpoints_cacheKey acc)) = Some v \<and> truthy v")
  case True
  then show ?thesis by (auto simp: getServiceEndpoints_hit)
next
  case False
  then show ?thesis by (simp add: getServiceEndpoints_miss)
qed

lemma getServiceEndpoints_world:
  assumes "getServiceEndpoints E w c acc l = Some (w', c', out)"
  shows "w' = w \<or> w' = looked_up E w acc l"
proof (cases "\<exists>v. fst (getCachedValue w c (endpoints_cacheKey acc)) = Some v \<and> truthy v")
  case True
  then show ?thesis using assms by (auto simp: getServiceEndpoints_hit)
next
  case False
  then show ?thesis using assms by (simp add: getServiceEndpoints_miss)
qed

lemma run_now_returns: "\<exists>r. run_now E w c acc l = Some r"
  using getServiceEndpoints_returns [of E w c acc l]
  by (auto simp: run_now_def new_promise_def)

lemma run_now_world:
  assumes "run_now E w c acc l = Some (w', c', p)"
  shows "w' = w \<or> w' = looked_up E w acc l"
  using assms getServiceEndpoints_world [of E w c acc l]
  by (auto simp: run_now_def new_promise_def split: option.splits prod.splits)

lemma getCachedValue_deleted:
  "getCachedValue w (deleteCachedValue c k) k = (None, deleteCachedValue c k)"
  by (simp add: getCachedValue_def deleteCachedValue_def cabinet_get_def cabinet_delete_def)

lemma then_keeps [simp]:
  "next_promise (fst (getServiceEndpoints_then E w c a l res)) = next_promise c"
  "promises (fst (getServiceEndpoints_then E w c a l res)) = promises c"
  "endpointResolution (fst (getServiceEndpoints_then E w c a l res)) = endpointResolution c"
  "defaultAccountId (fst (getServiceEndpoints_then E w c a l res)) = defaultAccountId c"
  "globalServiceParams (fst (getServiceEndpoints_then E w c a l res)) = globalServiceParams c"
  by (auto simp: getServiceEndpoints_then_def setCachedValue_def Let_def
      split: sum.splits option.splits)

lemma delete_keeps [simp]:
  "next_promise (deleteCachedValue c k) = next_promise c"
  "promises (deleteCachedValue c k) = promises c"
  "endpointResolution (deleteCachedValue c k) = endpointResolution c"
  "defaultAccountId (deleteCachedValue c k) = defaultAccountId c"
  "globalServiceParams (deleteCachedValue c k) = globalServiceParams c"
  by (simp_all add: deleteCachedValue_def)

lemma await_settled: "promises c p = Some (settled out) \<Longrightarrow>
   await c p = (case out of Inl r \<Rightarrow> Rejects r | Inr v \<Rightarrow> Resolves v)"
  by (simp add: await_def settled_def split: sum.splits)

lemma prepare_missing_eq:
  assumes er: "endpointResolution c (prepare_accountId c rp) = Some p"
      and pr: "promises c p = Some (Fulfilled collection)"
      and nn: "collection \<noteq> VNull"
      and lack: "\<not> js_hasOwn w collection (requested_service rp)"
  shows "prepare E w c rp =
    (let acc = prepare_accountId c rp;
         la = next_addr w;
         w1 = w\<lparr> arrays := (arrays w)(la \<mapsto> js_keys w collection @ [requested_service rp]),
                 next_addr := Suc la \<rparr>;
         c1 = deleteCachedValue c (endpoints_cacheKey acc);
         w2 = looked_up E w1 acc la;
         r = getServiceEndpoints_then E w2 c1 acc la (ax_receive E (sent w))
     in Some (w2,
         (fst r)\<lparr> promises := (promises c)(next_promise c \<mapsto> settled (snd r)),
                  next_promise := Suc (next_promise c),
                  endpointResolution := (endpointResolution c)(acc \<mapsto> next_promise c) \<rparr>,
         case snd r of Inl rej \<Rightarrow> Rejects rej | Inr v \<Rightarrow> Resolves v))"
proof -
  define acc where "acc = prepare_accountId c rp"
  define la where "la = next_addr w"
  define w1 where "w1 = w\<lparr> arrays := (arrays w)(la \<mapsto> js_keys w collection @ [requested_service rp]),
                 next_addr := Suc la \<rparr>"
  define c1 where "c1 = deleteCachedValue c (endpoints_cacheKey acc)"
  have head: "prepare_head (run_now E) w c acc rp = Some (w, c)"
    using er by (simp add: prepare_head_def acc_def)
  have aw: "await c p = Resolves collection"
    using pr by (simp add: await_def)
  have miss: "\<not> (\<exists>v. fst (getCachedValue w1 c1 (endpoints_cacheKey acc)) = Some v \<and> truthy v)"
    by (simp add: c1_def getCachedValue_deleted)
  have g: "getCachedValue w1 c1 (endpoints_cacheKey acc) = (None, c1)"
    by (simp add: c1_def getCachedValue_deleted)
  have key: "deleteCachedValue c (''/endpoints/'' @ acc) = c1"
    by (simp add: c1_def endpoints_cacheKey_def)
  have er1: "endpointResolution c1 = endpointResolution c"
    by (simp add: c1_def)
  have sw: "sent w1 = sent w"
    by (simp add: w1_def)
  have run: "run_now E w1 c1 acc la =
      Some (looked_up E w1 acc la,
       (fst (getServiceEndpoints_then E (looked_up E w1 acc la) c1 acc la (ax_receive E (sent w))))
         \<lparr> promises := (promises c)(next_promise c \<mapsto>
               settled (snd (getServiceEndpoints_then E (looked_up E w1 acc la) c1 acc la (ax_receive E (sent w))))),
           next_promise := Suc (next_promise c) \<rparr>,
       next_promise c)"
    unfolding run_now_def getServiceEndpoints_miss [OF miss] g
    by (simp add: new_promise_def case_prod_beta c1_def sw)
  have tail: "prepare_tail (run_now E) w c acc rp collection =
      Some (looked_up E w1 acc la,
       (fst (getServiceEndpoints_then E (looked_up E w1 acc la) c1 acc la (ax_receive E (sent w))))
         \<lparr> promises := (promises c)(next_promise c \<mapsto>
               settled (snd (getServiceEndpoints_then E (looked_up E w1 acc la) c1 acc la (ax_receive E (sent w))))),
           next_promise := Suc (next_promise c),
           endpointResolution := (endpointResolution c)(acc \<mapsto> next_promise c) \<rparr>,
       ReturnsPromise (next_promise c))"
    using nn lack run er1
    by (simp add: prepare_tail_def new_array_def la_def [symmetric] w1_def [symmetric]
        key [simplified])
  show ?thesis
    using head er aw tail
    by (simp add: prepare_def Let_def acc_def [symmetric] la_def [symmetric] w1_def [symmetric]
        c1_def [symmetric] await_def settled_def split: sum.splits)
qed

lemma grown_refl [simp]: "grown w w"
  by (simp add: grown_def)

lemma grown_trans: "grown w w1 \<Longrightarrow> grown w1 w2 \<Longrightarrow> grown w w2"
  by (auto simp: grown_def)

lemma grown_arrays: "next_addr w \<le> next_addr w' \<Longrightarrow> arrays w' = arrays w \<Longrightarrow> grown w w'"
  by (simp add: grown_def arr_at_def)

lemma grown_positive: "defaultServiceList < next_addr w \<Longrightarrow> grown w w' \<Longrightarrow> defaultServiceList < next_addr w'"
  by (simp add: grown_def)

lemma grown_member: "grown w w' \<Longrightarrow> x \<in> set (arr_at w defaultServiceList) \<Longrightarrow> x \<in> set (arr_at w' defaultServiceList)"
  by (auto simp: grown_def)

lemma ax_arrays: "arrays (fst (ax E w a i)) = arrays w" "next_addr (fst (ax E w a i)) = next_addr w"
  by (simp_all add: ax_def ax_send_def)

lemma set_breaker_arrays: "arrays (set_breaker a b w) = arrays w" "next_addr w \<le> next_addr (set_breaker a b w)"
  by (simp_all add: set_breaker_def new_dict_def set_config_def split: option.splits)

lemma retry_step_arrays: "arrays (retry_step E w a i) = arrays w" "next_addr w \<le> next_addr (retry_step E w a i)"
proof -
  obtain b v2 where g: "generateCacheBuster E
        (stopwatch_once ((case retry_interval (cfg_at w a) of None \<Rightarrow> 1000
            | Some ri \<Rightarrow> if ri \<noteq> 0 then ri else 1000) * i) w) i = (b, v2)"
    by (cases "generateCacheBuster E
        (stopwatch_once ((case retry_interval (cfg_at w a) of None \<Rightarrow> 1000
            | Some ri \<Rightarrow> if ri \<noteq> 0 then ri else 1000) * i) w) i") auto
  then have v2: "arrays v2 = arrays w" "next_addr v2 = next_addr w"
    by (auto simp: generateCacheBuster_def stopwatch_once_def Let_def)
  have r: "retry_step E w a i = set_breaker a b v2"
    using g by (simp add: retry_step_def Let_def)
  show "arrays (retry_step E w a i) = arrays w"
    by (simp add: r set_breaker_arrays v2)
  show "next_addr w \<le> next_addr (retry_step E w a i)"
    using set_breaker_arrays(2) [of v2 a b] by (simp add: r v2)
qed

lemma axiosRequest_arrays:
  assumes "axiosRequest E w a i = Some y"
  shows "arrays (fst y) = arrays w \<and> next_addr w \<le> next_addr (fst y)"
proof (rule axiosRequest.raw_induct [where P = "\<lambda>E w a i y.
      arrays (fst y) = arrays w \<and> next_addr w \<le> next_addr (fst y)", OF _ assms])
  fix f E w a i y
  assume ih: "\<And>E w a i y. f E w a i = Some y \<Longrightarrow>
      arrays (fst y) = arrays w \<and> next_addr w \<le> next_addr (fst y)"
    and body: "(case ax E w a i of
        (w1, Inl error) \<Rightarrow>
          if isRetryableError error (cfg_at w1 a) i
          then f E (retry_step E w1 a (i + 1)) a (i + 1 + 1) else Some (w1, Inl error)
      | (w1, Inr response) \<Rightarrow> Some (w1, Inr response)) = Some y"
  obtain w1 res where ax1: "ax E w a i = (w1, res)"
    by (cases "ax E w a i") auto
  then have w1: "arrays w1 = arrays w" "next_addr w1 = next_addr w"
    using ax_arrays [of E w a i] by simp_all
  show "arrays (fst y) = arrays w \<and> next_addr w \<le> next_addr (fst y)"
  proof (cases res)
    case (Inr r)
    then show ?thesis using body ax1 w1 by auto
  next
    case (Inl e)
    show ?thesis
    proof (cases "isRetryableError e (cfg_at w1 a) i")
      case True
      have eq: "f E (retry_step E w1 a (i + 1)) a (i + 1 + 1) = Some y"
        using body ax1 Inl True by simp
      show ?thesis
        using ih [OF eq] retry_step_arrays [where E = E and w = w1 and a = a and i = "i + 1"] w1
        by simp
    next
      case False
      then show ?thesis using body ax1 Inl w1 by auto
    qed
  qed
qed

lemma axiosRequest_grown: "axiosRequest E w a i = Some (w', res) \<Longrightarrow> grown w w'"
  using axiosRequest_arrays [of E w a i "(w', res)"] by (simp add: grown_arrays)

lemma looked_up_grown: "grown w (looked_up E w acc l)"
  by (simp add: grown_def looked_up_def arr_at_def)

lemma run_now_arrays:
  assumes "run_now E w c acc l = Some (w', c', p)"
  shows "arrays w' = arrays w \<and> next_addr w \<le> next_addr w'"
  using run_now_world [OF assms] by (auto simp: looked_up_def)

lemma prepare_head_returns: "\<exists>r. prepare_head (run_now E) w c acc rp = Some r"
  using run_now_returns [of E "array_push defaultServiceList (requested_service rp) w" c acc defaultServiceList]
    run_now_returns [of E w c acc defaultServiceList]
  by (auto simp: prepare_head_def Let_def)

lemma prepare_tail_returns: "\<exists>r. prepare_tail (run_now E) w c acc rp collection = Some r"
  using run_now_returns [of E "snd (new_array w (js_keys w collection @ [requested_service rp]))"
      "deleteCachedValue c (''/endpoints/'' @ acc)" acc "next_addr w"]
  by (auto simp: prepare_tail_def Let_def new_array_def)

lemma prepare_returns: "\<exists>r. prepare E w c rp = Some r"
proof -
  define acc where "acc = prepare_accountId c rp"
  obtain w1 c1 where h: "prepare_head (run_now E) w c acc rp = Some (w1, c1)"
    using prepare_head_returns [of E w c acc rp] by auto
  show ?thesis
  proof (cases "endpointResolution c1 acc")
    case None
    then show ?thesis using h by (simp add: prepare_def Let_def acc_def [symmetric])
  next
    case (Some p)
    show ?thesis
    proof (cases "await c1 p")
      case (Resolves collection)
      obtain w2 c2 ret where pt: "prepare_tail (run_now E) w1 c1 acc rp collection = Some (w2, c2, ret)"
        using prepare_tail_returns [of E w1 c1 acc rp collection] by auto
      then show ?thesis
        using h Some Resolves
        by (cases ret) (simp_all add: prepare_def Let_def acc_def [symmetric])
    next
      case (Rejects r)
      then show ?thesis using h Some by (simp add: prepare_def Let_def acc_def [symmetric])
    next
      case Never
      then show ?thesis using h Some by (simp add: prepare_def Let_def acc_def [symmetric])
    qed
  qed
qed

text \<open>
  The world a call of \<open>prepare\<close> leaves is the one its first part leaves, or the one its
  second part leaves when that runs.
\<close>

lemma prepare_split:
  assumes "prepare E w c rp = Some (w', c', out)"
  shows "\<exists>w1 c1. prepare_head (run_now E) w c (prepare_accountId c rp) rp = Some (w1, c1)
      \<and> (w' = w1
         \<or> (\<exists>collection c2 ret.
               prepare_tail (run_now E) w1 c1 (prepare_accountId c rp) rp collection
                 = Some (w', c2, ret)))"
  using assms
  by (auto simp: prepare_def Let_def
      split: option.splits outcome.splits returned.splits prod.splits)

lemma prepare_head_watchlist:
  assumes "prepare_head (run_now E) w c acc rp = Some (w', c')"
  shows "arr_at w' defaultServiceList =
     (if endpointResolution c acc = None \<and> requested_service rp \<notin> set (arr_at w defaultServiceList)
      then arr_at w defaultServiceList @ [requested_service rp]
      else arr_at w defaultServiceList)
   \<and> next_addr w \<le> next_addr w'"
proof (cases "endpointResolution c acc")
  case (Some p)
  then show ?thesis using assms by (simp add: prepare_head_def)
next
  case None
  define wp where "wp = (if requested_service rp \<notin> set (arr_at w defaultServiceList)
                         then array_push defaultServiceList (requested_service rp) w else w)"
  from assms None obtain c2 p where r: "run_now E wp c acc defaultServiceList = Some (w', c2, p)"
    by (auto simp: prepare_head_def Let_def wp_def split: option.splits if_splits)
  have wp: "arr_at wp defaultServiceList =
     (if requested_service rp \<notin> set (arr_at w defaultServiceList)
      then arr_at w defaultServiceList @ [requested_service rp]
      else arr_at w defaultServiceList)" "next_addr wp = next_addr w"
    by (simp_all add: wp_def arr_at_def array_push_def)
  have "arrays w' = arrays wp" "next_addr wp \<le> next_addr w'"
    using run_now_arrays [OF r] by simp_all
  then have "arr_at w' defaultServiceList = arr_at wp defaultServiceList" "next_addr w \<le> next_addr w'"
    using wp(2) by (simp_all add: arr_at_def)
  then show ?thesis
    using None wp(1) by simp
qed

lemma prepare_tail_watchlist:
  assumes "prepare_tail (run_now E) w c acc rp collection = Some (w', c', ret)"
      and "defaultServiceList < next_addr w"
  shows "arr_at w' defaultServiceList = arr_at w defaultServiceList \<and> next_addr w \<le> next_addr w'"
proof (cases "collection = VNull \<or> js_hasOwn w collection (requested_service rp)")
  case True
  then show ?thesis using assms by (auto simp: prepare_tail_def split: if_splits)
next
  case False
  define w1 where "w1 = snd (new_array w (js_keys w collection @ [requested_service rp]))"
  from assms False obtain c2 p where
    r: "run_now E w1 (deleteCachedValue c (''/endpoints/'' @ acc)) acc (next_addr w) = Some (w', c2, p)"
    by (auto simp: prepare_tail_def Let_def w1_def new_array_def split: option.splits)
  have "arrays w' = arrays w1" "next_addr w1 \<le> next_addr w'"
    using run_now_arrays [OF r] by simp_all
  then show ?thesis
    using assms(2) by (auto simp: w1_def arr_at_def new_array_def)
qed

lemma prepare_watchlist:
  assumes "prepare E w c rp = Some (w', c', out)"
      and "defaultServiceList < next_addr w"
  shows "arr_at w' defaultServiceList =
     (if endpointResolution c (prepare_accountId c rp) = None
         \<and> requested_service rp \<notin> set (arr_at w defaultServiceList)
      then arr_at w defaultServiceList @ [requested_service rp]
      else arr_at w defaultServiceList)
    \<and> next_addr w \<le> next_addr w'"
proof -
  define acc where "acc = prepare_accountId c rp"
  from prepare_split [OF assms(1)] obtain w1 c1 where
    h: "prepare_head (run_now E) w c acc rp = Some (w1, c1)"
    and alt: "w' = w1 \<or> (\<exists>collection c2 ret.
               prepare_tail (run_now E) w1 c1 acc rp collection = Some (w', c2, ret))"
    unfolding acc_def by blast
  have w1: "arr_at w1 defaultServiceList =
     (if endpointResolution c acc = None \<and> requested_service rp \<notin> set (arr_at w defaultServiceList)
      then arr_at w defaultServiceList @ [requested_service rp]
      else arr_at w defaultServiceList)" "next_addr w \<le> next_addr w1"
    using prepare_head_watchlist [OF h] by simp_all
  then have pos: "defaultServiceList < next_addr w1"
    using assms(2) by simp
  have "arr_at w' defaultServiceList = arr_at w1 defaultServiceList \<and> next_addr w1 \<le> next_addr w'"
    using alt prepare_tail_watchlist [OF _ pos] by auto
  with w1 show ?thesis
    by (simp add: acc_def)
qed

lemma prepare_grown:
  "prepare E w c rp = Some (w', c', out) \<Longrightarrow> defaultServiceList < next_addr w \<Longrightarrow> grown w w'"
  using prepare_watchlist [of E w c rp w' c' out] by (auto simp: grown_def)

lemma calculateRequestURL_returns: "\<exists>r. calculateRequestURL E w c ps = Some r"
  using prepare_returns [of E w c ps]
  by (auto simp: calculateRequestURL_def Let_def split: outcome.splits)

lemma calculateRequestURL_split:
  assumes "calculateRequestURL E w c ps = Some (w', c', out)"
  shows "w' = w \<or> (\<exists>c1 o1. prepare E w c ps = Some (w', c1, o1))"
  using assms
  by (auto simp: calculateRequestURL_def Let_def
      split: option.splits outcome.splits prod.splits if_splits)

lemma calculateRequestURL_grown:
  "calculateRequestURL E w c ps = Some (w', c', out) \<Longrightarrow> defaultServiceList < next_addr w \<Longrightarrow>
   grown w w'"
  using calculateRequestURL_split [of E w c ps w' c' out] prepare_grown [of E w c ps w']
  by auto

lemma set_config_grown: "grown w (set_config a cfg w)"
  by (simp add: grown_def set_config_def arr_at_def)

lemma fold_accept_header_grown: "grown w (fold_accept_header a w)"
  by (auto simp: fold_accept_header_def grown_def set_config_def new_dict_def arr_at_def Let_def
      split: option.splits prod.splits)

lemma fold_response_type_grown: "grown w (fold_response_type a w)"
  by (auto simp: fold_response_type_def grown_def set_config_def arr_at_def split: option.splits)

lemma new_config_grown: "grown w (snd (new_config w cfg))"
  by (simp add: grown_def new_config_def arr_at_def)

text \<open>
  \<open>normalizeRequest\<close> always comes to an end. Its result is the folded descriptor itself, or,
  for a descriptor with a service identity, what \<open>calculateRequestURL\<close> gave for the merged
  copy: the folded copy with its URL, or the failure.
\<close>

lemma normalizeRequest_plain_eq:
  "service_name (cfg_at w a) = None \<Longrightarrow> service_stack (cfg_at w a) = None \<Longrightarrow>
   normalizeRequest E w c a
     = Some (fold_response_type a (fold_accept_header a w), c, Resolves a)"
  by (simp add: normalizeRequest_def)

lemma new_config_eq:
  "new_config w cfg = (next_addr w, w\<lparr> cfgs := (cfgs w)(next_addr w \<mapsto> cfg), next_addr := Suc (next_addr w) \<rparr>)"
  by (simp add: new_config_def)

lemma normalizeRequest_ident_eq:
  assumes "service_name (cfg_at w a) \<noteq> None \<or> service_stack (cfg_at w a) \<noteq> None"
      and "calculateRequestURL E (snd (new_config w (object_assign (globalServiceParams c) (cfg_at w a))))
             c (object_assign (globalServiceParams c) (cfg_at w a)) = Some (w2, c2, r)"
  shows "normalizeRequest E w c a =
      (case r of
         Resolves u \<Rightarrow>
           Some (fold_response_type (next_addr w) (fold_accept_header (next_addr w)
                   (set_config (next_addr w) ((cfg_at w2 (next_addr w))\<lparr> url := Some u \<rparr>) w2)),
                 c2, Resolves (next_addr w))
       | Rejects x \<Rightarrow> Some (w2, c2, Rejects x)
       | Never \<Rightarrow> Some (w2, c2, Never))"
proof -
  define merged where "merged = object_assign (globalServiceParams c) (cfg_at w a)"
  define w1 where "w1 = w\<lparr> cfgs := (cfgs w)(next_addr w \<mapsto> merged), next_addr := Suc (next_addr w) \<rparr>"
  have nc: "new_config w merged = (next_addr w, w1)"
    by (simp add: new_config_def w1_def)
  have m1: "cfg_at w1 (next_addr w) = merged"
    by (simp add: w1_def cfg_at_def)
  have cr: "calculateRequestURL E w1 c merged = Some (w2, c2, r)"
    using assms(2) nc by (simp add: merged_def)
  show ?thesis
    using assms(1) nc cr m1
    by (simp add: normalizeRequest_def merged_def [symmetric] split: outcome.splits)
qed

lemma normalizeRequest_returns: "\<exists>r. normalizeRequest E w c a = Some r"
proof (cases "service_name (cfg_at w a) \<noteq> None \<or> service_stack (cfg_at w a) \<noteq> None")
  case False
  then show ?thesis by (simp add: normalizeRequest_plain_eq)
next
  case True
  obtain w2 c2 r where
    "calculateRequestURL E (snd (new_config w (object_assign (globalServiceParams c) (cfg_at w a))))
             c (object_assign (globalServiceParams c) (cfg_at w a)) = Some (w2, c2, r)"
    using calculateRequestURL_returns
      [of E "snd (new_config w (object_assign (globalServiceParams c) (cfg_at w a)))" c
          "object_assign (globalServiceParams c) (cfg_at w a)"]
    by auto
  from normalizeRequest_ident_eq [OF True this] show ?thesis
    by (cases r) simp_all
qed

lemma normalizeRequest_grown:
  assumes "normalizeRequest E w c a = Some (w', c', out)"
      and "defaultServiceList < next_addr w"
  shows "grown w w'"
proof -
  have folds: "grown v (fold_response_type b (fold_accept_header b v))" for v b
    using grown_trans [OF fold_accept_header_grown fold_response_type_grown] .
  show ?thesis
  proof (cases "service_name (cfg_at w a) \<noteq> None \<or> service_stack (cfg_at w a) \<noteq> None")
    case False
    then show ?thesis using folds assms(1) by (auto simp: normalizeRequest_plain_eq)
  next
    case True
    define merged where "merged = object_assign (globalServiceParams c) (cfg_at w a)"
    define w1 where "w1 = snd (new_config w merged)"
    have g1: "grown w w1"
      by (simp add: w1_def new_config_grown)
    then have pos1: "defaultServiceList < next_addr w1"
      using assms(2) grown_positive by blast
    obtain w2 c2 r where cr: "calculateRequestURL E w1 c merged = Some (w2, c2, r)"
      using calculateRequestURL_returns [of E w1 c merged] by auto
    have g2: "grown w1 w2"
      using calculateRequestURL_grown [OF cr pos1] .
    have g12: "grown w w2"
      using grown_trans [OF g1 g2] .
    note eq = normalizeRequest_ident_eq [OF True cr [unfolded w1_def merged_def]]
    show ?thesis
    proof (cases r)
      case (Resolves u)
      have "grown w2 (fold_response_type (next_addr w) (fold_accept_header (next_addr w)
               (set_config (next_addr w) ((cfg_at w2 (next_addr w))\<lparr> url := Some u \<rparr>) w2)))"
        using grown_trans [OF set_config_grown folds] .
      then show ?thesis
        using assms(1) Resolves grown_trans [OF g12] by (auto simp: eq)
    next
      case (Rejects x)
      then show ?thesis using assms(1) g12 by (auto simp: eq)
    next
      case Never
      then show ?thesis using assms(1) g12 by (auto simp: eq)
    qed
  qed
qed

lemma set_method_grown: "grown w (set_method a m w)"
  by (simp add: set_method_def set_config_grown)

text \<open>
  The world a request method leaves is the one normalization leaves, or the one the retry
  chain leaves that starts there.
\<close>

lemma get_split:
  assumes "get E w c a = Some (w', c', out)"
  shows "\<exists>w1 c1 r. normalizeRequest E (set_method a ''GET'' w) c a = Some (w1, c1, r)
      \<and> (w' = w1 \<or> (\<exists>n res. axiosRequest E w1 n 0 = Some (w', res)))"
proof -
  obtain w1 c1 r where nr: "normalizeRequest E (set_method a ''GET'' w) c a = Some (w1, c1, r)"
    using normalizeRequest_returns [of E "set_method a ''GET'' w" c a] by auto
  have "w' = w1 \<or> (\<exists>n res. axiosRequest E w1 n 0 = Some (w', res))"
    using assms nr
    by (auto simp: get_def Let_def
        split: outcome.splits prod.splits option.splits sum.splits if_splits)
  then show ?thesis using nr by blast
qed

lemma write_request_split:
  assumes "write_request E w c a = Some (w', c', out)"
  shows "\<exists>w1 c1 r. normalizeRequest E w c a = Some (w1, c1, r)
      \<and> (w' = w1 \<or> (\<exists>n res. axiosRequest E w1 n 0 = Some (w', res)))"
proof -
  obtain w1 c1 r where nr: "normalizeRequest E w c a = Some (w1, c1, r)"
    using normalizeRequest_returns [of E w c a] by auto
  have "w' = w1 \<or> (\<exists>n res. axiosRequest E w1 n 0 = Some (w', res))"
    using assms nr
    by (auto simp: write_request_def Let_def
        split: outcome.splits prod.splits option.splits sum.splits)
  then show ?thesis using nr by blast
qed

lemma get_grown:
  assumes "get E w c a = Some (w', c', out)"
      and "defaultServiceList < next_addr w"
  shows "grown w w'"
proof -
  have pos: "defaultServiceList < next_addr (set_method a ''GET'' w)"
    using assms(2) grown_positive set_method_grown by blast
  from get_split [OF assms(1)] obtain w1 c1 r where
    nr: "normalizeRequest E (set_method a ''GET'' w) c a = Some (w1, c1, r)"
    and alt: "w' = w1 \<or> (\<exists>n res. axiosRequest E w1 n 0 = Some (w', res))"
    by blast
  have g1: "grown w w1"
    using grown_trans [OF set_method_grown normalizeRequest_grown [OF nr pos]] .
  have "grown w1 w'"
    using alt axiosRequest_grown by auto
  then show ?thesis using grown_trans [OF g1] by blast
qed

lemma write_request_grown:
  assumes "write_request E w c a = Some (w', c', out)"
      and "defaultServiceList < next_addr w"
  shows "grown w w'"
proof -
  from write_request_split [OF assms(1)] obtain w1 c1 r where
    nr: "normalizeRequest E w c a = Some (w1, c1, r)"
    and alt: "w' = w1 \<or> (\<exists>n res. axiosRequest E w1 n 0 = Some (w', res))"
    by blast
  have g1: "grown w w1"
    using normalizeRequest_grown [OF nr assms(2)] .
  have "grown w1 w'"
    using alt axiosRequest_grown by auto
  then show ?thesis using grown_trans [OF g1] by blast
qed

lemma post_grown:
  "post E w c a = Some (w', c', out) \<Longrightarrow> defaultServiceList < next_addr w \<Longrightarrow> grown w w'"
  using grown_trans [OF set_method_grown write_request_grown] grown_positive [OF _ set_method_grown]
  by (simp add: post_def)

lemma put_grown:
  "put E w c a = Some (w', c', out) \<Longrightarrow> defaultServiceList < next_addr w \<Longrightarrow> grown w w'"
  using grown_trans [OF set_method_grown write_request_grown] grown_positive [OF _ set_method_grown]
  by (simp add: put_def)

lemma delete_grown:
  "delete E w c a = Some (w', c', out) \<Longrightarrow> defaultServiceList < next_addr w \<Longrightarrow> grown w w'"
  using grown_trans [OF set_method_grown write_request_grown] grown_positive [OF _ set_method_grown]
  by (simp add: delete_def)

lemma form_grown:
  assumes "form E w c a = Some (w', c', out)"
      and "defaultServiceList < next_addr w"
  shows "grown w w'"
proof -
  define w1 where "w1 = snd (new_dict (set_method a ''POST'' w) [(''Content-Type'', ''multipart/form-data'')])"
  define h where "h = fst (new_dict (set_method a ''POST'' w) [(''Content-Type'', ''multipart/form-data'')])"
  define w2 where "w2 = set_config a ((cfg_at w1 a)\<lparr> headers := Some h \<rparr>) w1"
  have "grown (set_method a ''POST'' w) w1"
    by (simp add: w1_def grown_def new_dict_def arr_at_def)
  then have "grown w w1"
    using grown_trans [OF set_method_grown] by blast
  then have g2: "grown w w2"
    unfolding w2_def using grown_trans [OF _ set_config_grown] by blast
  then have pos: "defaultServiceList < next_addr w2"
    using assms(2) grown_positive by blast
  have "form E w c a = write_request E w2 c a"
    by (simp add: form_def w2_def w1_def h_def split: prod.splits)
  then have "write_request E w2 c a = Some (w', c', out)"
    using assms(1) by simp
  then have "grown w2 w'"
    using pos by (rule write_request_grown)
  then show ?thesis
    using grown_trans [OF g2] by simp
qed

lemma later_grown:
  "later w w' \<Longrightarrow> defaultServiceList < next_addr w \<Longrightarrow> grown w w'"
proof (induction rule: later.induct)
  case (later_now w)
  then show ?case by simp
next
  case (later_get w w1 E c a w2 c2 out)
  then show ?case
    using grown_trans [OF _ get_grown] grown_positive by blast
next
  case (later_post w w1 E c a w2 c2 out)
  then show ?case
    using grown_trans [OF _ post_grown] grown_positive by blast
next
  case (later_form w w1 E c a w2 c2 out)
  then show ?case
    using grown_trans [OF _ form_grown] grown_positive by blast
next
  case (later_put w w1 E c a w2 c2 out)
  then show ?case
    using grown_trans [OF _ put_grown] grown_positive by blast
next
  case (later_delete w w1 E c a w2 c2 out)
  then show ?case
    using grown_trans [OF _ delete_grown] grown_positive by blast
qed

lemma run_now_trace:
  "run_now E w c acc l = Some (w', c', p) \<Longrightarrow> \<exists>ext. trace w' = trace w @ ext"
  using run_now_world [of E w c acc l w' c' p] by (auto simp: looked_up_def)

lemma prepare_tail_trace:
  assumes "prepare_tail (run_now E) w c acc rp collection = Some (w', c', ret)"
  shows "\<exists>ext. trace w' = trace w @ ext"
proof (cases "collection = VNull \<or> js_hasOwn w collection (requested_service rp)")
  case True
  then show ?thesis using assms by (auto simp: prepare_tail_def split: if_splits)
next
  case False
  define w1 where "w1 = snd (new_array w (js_keys w collection @ [requested_service rp]))"
  from assms False obtain c2 p where
    r: "run_now E w1 (deleteCachedValue c (''/endpoints/'' @ acc)) acc (next_addr w) = Some (w', c2, p)"
    by (auto simp: prepare_tail_def Let_def w1_def new_array_def split: option.splits)
  have "trace w1 = trace w"
    by (simp add: w1_def new_array_def)
  then show ?thesis
    using run_now_trace [OF r] by simp
qed

lemma prepare_first_request:
  assumes un: "endpointResolution c (prepare_accountId c rp) = None"
      and miss: "\<not> (\<exists>v. fst (getCachedValue w c (endpoints_cacheKey (prepare_accountId c rp))) = Some v
                        \<and> truthy v)"
  shows "\<exists>w' c' out rest. prepare E w c rp = Some (w', c', out)
      \<and> trace w' =
         trace w @ Sent \<lparr> rq_method = Some ''POST'',
            rq_url = Some (resolveURL E (Some (GlobalAPI E))
                (Some (''/endpoints/v1/'' @ prepare_accountId c rp @ ''/residency/default/endpoints''))),
            rq_params = None,
            rq_body = Some (VArr (map VStr (arr_at w defaultServiceList
                @ (if requested_service rp \<in> set (arr_at w defaultServiceList) then []
                   else [requested_service rp])))) \<rparr> 0 # rest"
proof -
  define acc where "acc = prepare_accountId c rp"
  define wp where "wp = (if requested_service rp \<notin> set (arr_at w defaultServiceList)
                         then array_push defaultServiceList (requested_service rp) w else w)"
  have wp: "now wp = now w" "trace wp = trace w"
      "arr_at wp defaultServiceList = arr_at w defaultServiceList
                @ (if requested_service rp \<in> set (arr_at w defaultServiceList) then []
                   else [requested_service rp])"
    by (simp_all add: wp_def array_push_def arr_at_def)
  have miss': "\<not> (\<exists>v. fst (getCachedValue wp c (endpoints_cacheKey acc)) = Some v \<and> truthy v)"
    using miss wp(1) by (simp add: getCachedValue_def acc_def)
  obtain w' c' out where p: "prepare E w c rp = Some (w', c', out)"
    using prepare_returns [of E w c rp] by auto
  from prepare_split [OF p] obtain w1 c1 where
    h: "prepare_head (run_now E) w c acc rp = Some (w1, c1)"
    and alt: "w' = w1 \<or> (\<exists>collection c2 ret.
               prepare_tail (run_now E) w1 c1 acc rp collection = Some (w', c2, ret))"
    unfolding acc_def by blast
  from h un obtain c2 q where "run_now E wp c acc defaultServiceList = Some (w1, c2, q)"
    by (auto simp: prepare_head_def acc_def Let_def wp_def split: option.splits if_splits)
  then have w1: "w1 = looked_up E wp acc defaultServiceList"
    by (auto simp: run_now_def getServiceEndpoints_miss [OF miss'] new_promise_def
        split: prod.splits)
  define first where "first = Sent \<lparr> rq_method = Some ''POST'',
            rq_url = Some (resolveURL E (Some (GlobalAPI E))
                (Some (''/endpoints/v1/'' @ acc @ ''/residency/default/endpoints''))),
            rq_params = None,
            rq_body = Some (VArr (map VStr (arr_at w defaultServiceList
                @ (if requested_service rp \<in> set (arr_at w defaultServiceList) then []
                   else [requested_service rp])))) \<rparr> 0"
  have t1: "trace w1 = trace w @ [first]"
    by (simp add: w1 looked_up_def wp first_def)
  have "\<exists>ext. trace w' = trace w1 @ ext"
    using alt prepare_tail_trace by auto
  then have "\<exists>rest. trace w' = trace w @ first # rest"
    using t1 by auto
  then show ?thesis
    using p unfolding first_def acc_def by blast
qed

lemma deleteCachedValue_twice:
  "deleteCachedValue (deleteCachedValue c k) k = deleteCachedValue c k"
  by (simp add: deleteCachedValue_def cabinet_delete_def)

lemma prepare_accountId_delete [simp]:
  "prepare_accountId (deleteCachedValue c k) rp = prepare_accountId c rp"
  by (simp add: prepare_accountId_def split: option.splits)

text \<open>
  C7. When the endpoint map of the account is resolved and lacks the requested service,
  \<open>prepare\<close> sends exactly one discovery request, whose list is the names known in the map
  followed by the new one; what was cached for the account has no influence on the call
  (the entry is deleted first); and the promise stored for the account is replaced by a new
  one, settled by this lookup, which is what \<open>prepare\<close> returns.
\<close>

theorem prepare_missing_service:
  assumes er: "endpointResolution c (prepare_accountId c rp) = Some p"
      and pr: "promises c p = Some (Fulfilled collection)"
      and nn: "collection \<noteq> VNull"
      and lack: "\<not> js_hasOwn w collection (requested_service rp)"
      and fresh: "p < next_promise c"
  shows "\<exists>w' c' out. prepare E w c rp = Some (w', c', out)
    \<and> trace w' =
           trace w @ [Sent \<lparr> rq_method = Some ''POST'',
             rq_url = Some (resolveURL E (Some (GlobalAPI E))
                (Some (''/endpoints/v1/'' @ prepare_accountId c rp @ ''/residency/default/endpoints''))),
             rq_params = None,
             rq_body = Some (VArr (map VStr (js_keys w collection @ [requested_service rp]))) \<rparr> 0]
    \<and> sent w' = Suc (sent w)
    \<and> prepare E w (deleteCachedValue c (endpoints_cacheKey (prepare_accountId c rp))) rp
        = Some (w', c', out)
    \<and> endpointResolution c' (prepare_accountId c rp) = Some (next_promise c)
    \<and> next_promise c \<noteq> p
    \<and> out = await c' (next_promise c)
    \<and> out \<noteq> Never"
proof -
  note eq = prepare_missing_eq [OF er pr nn lack, of E]
  have eq': "prepare E w (deleteCachedValue c (endpoints_cacheKey (prepare_accountId c rp))) rp
      = prepare E w c rp"
    using prepare_missing_eq [of "deleteCachedValue c (endpoints_cacheKey (prepare_accountId c rp))"
        rp p collection w E] er pr nn lack
    by (simp add: eq deleteCachedValue_twice Let_def)
  show ?thesis
    using fresh
    unfolding eq'
    by (simp add: eq Let_def looked_up_def arr_at_def await_def settled_def split: sum.splits)
qed

theorem prepare_missing_service_witness:
  "\<exists>w' c' out.
     prepare (example_env discovery_ok) initial_world resolved_client (service_cfg ''x'' ''2'')
       = Some (w', c', out)
   \<and> trace w'
     = [Sent \<lparr> rq_method = Some ''POST'',
               rq_url = Some ''https://global/endpoints/v1/2/residency/default/endpoints'',
               rq_params = None, rq_body = Some (VArr [VStr ''aims'', VStr ''x'']) \<rparr> 0]
   \<and> sent w' = 1
   \<and> endpointResolution c' ''2'' = Some 1
   \<and> out \<noteq> Never"
proof -
  have acc: "prepare_accountId resolved_client (service_cfg ''x'' ''2'') = ''2''"
    by (simp add: prepare_accountId_def service_cfg_def)
  have er: "endpointResolution resolved_client (prepare_accountId resolved_client (service_cfg ''x'' ''2'')) = Some 0"
    by (simp add: acc) (simp add: resolved_client_def)
  have pr: "promises resolved_client 0 = Some (Fulfilled (VObj [(''aims'', VStr ''https://api.example.com'')]))"
    by (simp add: resolved_client_def)
  have nn: "VObj [(''aims'', VStr ''https://api.example.com'')] \<noteq> VNull"
    by simp
  have lack: "\<not> js_hasOwn initial_world (VObj [(''aims'', VStr ''https://api.example.com'')])
                  (requested_service (service_cfg ''x'' ''2''))"
    by (simp add: js_hasOwn_def requested_service_def service_cfg_def)
  have fresh: "0 < next_promise resolved_client"
    by (simp add: resolved_client_def)
  have url2: "resolveURL (example_env tr) (Some (GlobalAPI (example_env tr)))
      (Some ''/endpoints/v1/2/residency/default/endpoints'')
      = ''https://global/endpoints/v1/2/residency/default/endpoints''" for tr
    by (simp add: example_env_def)
  have rs: "requested_service (service_cfg ''x'' ''2'') = ''x''"
    by (simp add: requested_service_def service_cfg_def)
  have np: "next_promise resolved_client = 1" "trace initial_world = []" "sent initial_world = 0"
    by (simp_all add: resolved_client_def initial_world_def)
  from prepare_missing_service [OF er pr nn lack fresh, of "example_env discovery_ok"]
  obtain w' c' out where
    T: "prepare (example_env discovery_ok) initial_world resolved_client (service_cfg ''x'' ''2'')
          = Some (w', c', out)"
       "trace w' =
           trace initial_world @ [Sent \<lparr> rq_method = Some ''POST'',
             rq_url = Some (resolveURL (example_env discovery_ok) (Some (GlobalAPI (example_env discovery_ok)))
                (Some (''/endpoints/v1/'' @ prepare_accountId resolved_client (service_cfg ''x'' ''2'')
                       @ ''/residency/default/endpoints''))),
             rq_params = None,
             rq_body = Some (VArr (map VStr (js_keys initial_world
                 (VObj [(''aims'', VStr ''https://api.example.com'')])
                    @ [requested_service (service_cfg ''x'' ''2'')]))) \<rparr> 0]"
       "sent w' = Suc (sent initial_world)"
       "endpointResolution c' (prepare_accountId resolved_client (service_cfg ''x'' ''2''))
          = Some (next_promise resolved_client)"
       "out \<noteq> Never"
    by blast
  have t1: "trace w'
     = [Sent \<lparr> rq_method = Some ''POST'',
               rq_url = Some ''https://global/endpoints/v1/2/residency/default/endpoints'',
               rq_params = None, rq_body = Some (VArr [VStr ''aims'', VStr ''x'']) \<rparr> 0]"
    using T(2) by (simp add: acc url2 rs js_keys_def np)
  have t2: "sent w' = 1"
    using T(3) by (simp add: np)
  have t4: "endpointResolution c' ''2'' = Some 1"
    using T(4) by (simp add: acc np)
  show ?thesis
    using T(1) t1 t2 t4 T(5) by blast
qed

lemmas task_evals = call_prepare_def deliver_def resume_def prepare_head_def prepare_tail_def
  run_async_def getServiceEndpoints_begin_def getServiceEndpoints_then_def
  axiosRequest_settled_def isRetryableError_def getCachedValue_def setCachedValue_def
  deleteCachedValue_def cabinet_get_def cabinet_set_def cabinet_delete_def new_client_def
  defaultServiceParams_def example_env_def initial_world_def empty_config_def new_config_def
  new_array_def new_promise_def endpointsRequest_def ax_send_def ax_receive_def
  onRequestResponse_def onRequestError_def snapshot_def freeze_def cfg_at_def arr_at_def
  array_push_def prepare_accountId_def requested_service_def service_cfg_def discovery_ok_def
  defaultServiceList_def initial_defaultServiceList_def endpoints_cacheKey_def js_entries_def
  js_hasOwn_def js_keys_def startsWith_def settled_def await_def is_settled_def in_flight_def
  Let_def

lemma upt_small: "[0..<3] = [0, 1, 2]" "[0..<1] = [0]"
  by (simp_all add: upt_rec)

text \<open>
  A lookup that is started and whose response is then delivered is the lookup run to
  completion (where the transport takes no time): the two ways of running
  \<open>getServiceEndpoints\<close> agree.
\<close>

lemma then_storage_only:
  "fst (getServiceEndpoints_then E w (c\<lparr> promises := ps, next_promise := np \<rparr>) acc l res)
     = (fst (getServiceEndpoints_then E w c acc l res))\<lparr> promises := ps, next_promise := np \<rparr>
   \<and> snd (getServiceEndpoints_then E w (c\<lparr> promises := ps, next_promise := np \<rparr>) acc l res)
     = snd (getServiceEndpoints_then E w c acc l res)"
  by (auto simp: getServiceEndpoints_then_def setCachedValue_def Let_def
      split: sum.splits option.splits)

lemma started_then_delivered:
  assumes lat: "latency E (sent w) = 0"
      and ra: "run_async E w c acc l = Some (w1, c1, p)"
  shows "\<exists>w2 c2. run_now E w c acc l = Some (w2, c2, p)
      \<and> deliver E p \<lparr> t_world = w1, t_client = c1, suspended = [], finished = [] \<rparr>
          = Some \<lparr> t_world = w2, t_client = c2, suspended = [], finished = [] \<rparr>"
proof (cases "\<exists>v. fst (getCachedValue w c (endpoints_cacheKey acc)) = Some v \<and> truthy v")
  case True
  then obtain v where v: "fst (getCachedValue w c (endpoints_cacheKey acc)) = Some v" "truthy v"
    by blast
  obtain cv c0 where g: "getCachedValue w c (endpoints_cacheKey acc) = (cv, c0)"
    by (cases "getCachedValue w c (endpoints_cacheKey acc)") auto
  have b: "getServiceEndpoints_begin E w c acc l = (w, c0, Inl v)"
    using v g by (simp add: getServiceEndpoints_begin_def)
  have rn: "run_now E w c acc l
      = Some (w, snd (new_promise c0 (Fulfilled v)), fst (new_promise c0 (Fulfilled v)))"
    using g getServiceEndpoints_hit [OF v, of E l]
    by (simp add: run_now_def settled_def split: prod.splits)
  have "(w1, c1, p) = (w, snd (new_promise c0 (Fulfilled v)), fst (new_promise c0 (Fulfilled v)))"
    using ra b by (simp add: run_async_def split: prod.splits)
  then show ?thesis
    by (simp add: rn deliver_def new_promise_def)
next
  case False
  obtain cv c0 where g: "getCachedValue w c (endpoints_cacheKey acc) = (cv, c0)"
    by (cases "getCachedValue w c (endpoints_cacheKey acc)") auto
  have miss: "(case cv of Some v \<Rightarrow> if truthy v then Some v else None | None \<Rightarrow> None) = None"
    using False g by (auto split: option.splits)
  define wn where "wn = snd (new_config w (endpointsRequest E acc l))"
  define r where "r = next_addr w"
  have b: "getServiceEndpoints_begin E w c acc l = (wn, c0, Inr r)"
    using g miss by (simp add: getServiceEndpoints_begin_def new_config_def wn_def r_def)
  have sent_wn: "sent wn = sent w"
    by (simp add: wn_def new_config_def)
  define ws where "ws = snd (ax_send wn r 0)"
  have ws_lu: "ws = looked_up E w acc l"
    using lat
    by (simp add: ws_def wn_def r_def ax_send_def new_config_def looked_up_def snapshot_def
        cfg_at_def endpointsRequest_def empty_config_def freeze_def arr_at_def)
  have ra': "(w1, c1, p) = (ws, c0\<lparr> promises := (promises c0)(next_promise c0 \<mapsto> Pending (sent w) acc l r),
                                   next_promise := Suc (next_promise c0) \<rparr>, next_promise c0)"
    using ra b sent_wn
    by (auto simp: run_async_def ws_def ax_send_def new_promise_def split: prod.splits)
  have rc: "retry_count (cfg_at ws r) = None"
    by (simp add: ws_lu looked_up_def cfg_at_def r_def endpointsRequest_def empty_config_def)
  have settle: "axiosRequest_settled E ws r 0 (ax_receive E (sent w))
      = Some (ws, ax_receive E (sent w))"
    using rc by (auto simp: axiosRequest_settled_def isRetryableError_def split: sum.splits)
  have c0: "c0 = snd (getCachedValue w c (endpoints_cacheKey acc))"
    using g by simp
  have rn: "run_now E w c acc l =
      Some (ws,
       (fst (getServiceEndpoints_then E ws c0 acc l (ax_receive E (sent w))))
         \<lparr> promises := (promises c0)(next_promise c0 \<mapsto>
               settled (snd (getServiceEndpoints_then E ws c0 acc l (ax_receive E (sent w))))),
           next_promise := Suc (next_promise c0) \<rparr>,
       next_promise c0)"
    using getServiceEndpoints_miss [OF False, of E l]
    by (simp add: run_now_def new_promise_def ws_lu c0 case_prod_beta)
  show ?thesis
    using ra' settle then_storage_only [where E = E and w = ws and c = c0
        and ps = "(promises c0)(next_promise c0 \<mapsto> Pending (sent w) acc l r)"
        and np = "Suc (next_promise c0)" and acc = acc and l = l and res = "ax_receive E (sent w)"]
    by (simp add: rn deliver_def case_prod_beta)
qed

text \<open>
  A call of \<open>prepare\<close> for an account that has a stored promise sends nothing and changes
  nothing: it waits for that promise.
\<close>

lemma call_prepare_shares:
  "endpointResolution (t_client s) (prepare_accountId (t_client s) rp) = Some p \<Longrightarrow>
   call_prepare E rp s =
     Some (s\<lparr> suspended := suspended s @ [(Some p, prepare_accountId (t_client s) rp, rp)] \<rparr>)"
  by (simp add: call_prepare_def prepare_head_def Let_def)

text \<open>
  So any number of further calls for that account, made while it has a stored promise,
  leave the world and the client as they are; and a call for one account leaves the
  promise stored for any other account alone.
\<close>

lemma calls_share:
  assumes "endpointResolution (t_client s) acc = Some p"
      and "\<forall>rp \<in> set rps. prepare_accountId (t_client s) rp = acc"
  shows "foldl (\<lambda>so rp. Option.bind so (call_prepare E rp)) (Some s) rps
      = Some (s\<lparr> suspended := suspended s @ map (\<lambda>rp. (Some p, acc, rp)) rps \<rparr>)"
  using assms
proof (induction rps arbitrary: s)
  case Nil
  then show ?case by simp
next
  case (Cons rp rps)
  have step: "call_prepare E rp s = Some (s\<lparr> suspended := suspended s @ [(Some p, acc, rp)] \<rparr>)"
    using call_prepare_shares [of s rp p E] Cons.prems by simp
  show ?case
    using Cons.IH [of "s\<lparr> suspended := suspended s @ [(Some p, acc, rp)] \<rparr>"] Cons.prems
    by (simp add: step)
qed

lemma run_async_endpointResolution:
  "run_async E w c acc l = Some (w', c', p) \<Longrightarrow> endpointResolution c' = endpointResolution c"
  by (auto simp: run_async_def getServiceEndpoints_begin_def getCachedValue_def new_promise_def
      new_config_def ax_send_def split: prod.splits option.splits sum.splits if_splits)

lemma call_prepare_returns: "\<exists>s'. call_prepare E rp s = Some s'"
  by (auto simp: call_prepare_def prepare_head_def run_async_def Let_def new_promise_def
      split: prod.splits sum.splits option.splits)

lemma call_prepare_other_account:
  assumes "call_prepare E rp s = Some s'"
      and "b \<noteq> prepare_accountId (t_client s) rp"
  shows "endpointResolution (t_client s') b = endpointResolution (t_client s) b"
  using assms run_async_endpointResolution
  by (fastforce simp: call_prepare_def prepare_head_def Let_def
      split: prod.splits option.splits if_splits)

text \<open>
  C8. Three calls of \<open>prepare\<close> for one account, made before the first lookup is answered,
  do share one lookup while it is pending: one request is sent, one lookup is in flight.
  Once it is answered, each resumed call whose service the answer lacks starts a lookup of
  its own: the second and the third call leave two lookups for the account in flight at
  the same time, and three discovery requests have been sent for the three calls.
\<close>

theorem overlapping_prepare_lookups:
  "\<exists>s1 s2. three_calls = Some s1
   \<and> in_flight (t_client s1) ''2'' = [0]
   \<and> sent (t_world s1) = 1
   \<and> length (suspended s1) = 3
   \<and> three_resumed = Some s2
   \<and> in_flight (t_client s2) ''2'' = [1, 2]
   \<and> sent (t_world s2) = 3
   \<and> suspended s2 = []
   \<and> map rq_body (requests_of (trace (t_world s2))) =
       [Some (VArr (map VStr (initial_defaultServiceList @ [''x'']))),
        Some (VArr [VStr ''aims'', VStr ''x'', VStr ''y'']),
        Some (VArr [VStr ''aims'', VStr ''x'', VStr ''z''])]"
  unfolding three_resumed_def three_calls_def
  by (simp add: task_evals upt_small)

text \<open>
  C9. When \<open>prepare\<close> is called for an account without a resolution and a service that is not
  on the static default list, the name is appended to the static list itself; it stays on
  the list whatever request methods are called afterwards, by whichever client; and the
  first resolution of any account by any client afterwards asks the discovery service for
  a list that contains it.
\<close>

theorem prepare_enlarges_defaultServiceList:
  assumes "defaultServiceList < next_addr w"
      and "endpointResolution c (prepare_accountId c rp) = None"
      and "requested_service rp \<notin> set (arr_at w defaultServiceList)"
  shows "\<exists>w' c' out. prepare E w c rp = Some (w', c', out)
    \<and> arr_at w' defaultServiceList = arr_at w defaultServiceList @ [requested_service rp]
    \<and> (\<forall>w2. later w' w2 \<longrightarrow> requested_service rp \<in> set (arr_at w2 defaultServiceList))
    \<and> (\<forall>w2 E2 c2 rp2.
          later w' w2
          \<and> endpointResolution c2 (prepare_accountId c2 rp2) = None
          \<and> \<not> (\<exists>v. fst (getCachedValue w2 c2 (endpoints_cacheKey (prepare_accountId c2 rp2))) = Some v
                    \<and> truthy v)
          \<longrightarrow> (\<exists>w3 c3 out3 names rest.
                 prepare E2 w2 c2 rp2 = Some (w3, c3, out3)
                 \<and> trace w3 =
                   trace w2 @ Sent \<lparr> rq_method = Some ''POST'',
                     rq_url = Some (resolveURL E2 (Some (GlobalAPI E2))
                       (Some (''/endpoints/v1/'' @ prepare_accountId c2 rp2
                              @ ''/residency/default/endpoints''))),
                     rq_params = None,
                     rq_body = Some (VArr (map VStr names)) \<rparr> 0 # rest
                 \<and> requested_service rp \<in> set names))"
proof -
  obtain w' c' out where p: "prepare E w c rp = Some (w', c', out)"
    using prepare_returns [of E w c rp] by auto
  have a: "arr_at w' defaultServiceList = arr_at w defaultServiceList @ [requested_service rp]"
    using prepare_watchlist [OF p assms(1)] assms(2,3) by simp
  have pos: "defaultServiceList < next_addr w'"
    using prepare_watchlist [OF p assms(1)] assms(1) by simp
  have b: "requested_service rp \<in> set (arr_at w2 defaultServiceList)" if "later w' w2" for w2
    using grown_member [OF later_grown [OF that pos]] a by simp
  have c: "\<exists>w3 c3 out3 names rest.
                 prepare E2 w2 c2 rp2 = Some (w3, c3, out3)
                 \<and> trace w3 =
                   trace w2 @ Sent \<lparr> rq_method = Some ''POST'',
                     rq_url = Some (resolveURL E2 (Some (GlobalAPI E2))
                       (Some (''/endpoints/v1/'' @ prepare_accountId c2 rp2
                              @ ''/residency/default/endpoints''))),
                     rq_params = None,
                     rq_body = Some (VArr (map VStr names)) \<rparr> 0 # rest
                 \<and> requested_service rp \<in> set names"
    if l: "later w' w2" and un: "endpointResolution c2 (prepare_accountId c2 rp2) = None"
      and miss: "\<not> (\<exists>v. fst (getCachedValue w2 c2 (endpoints_cacheKey (prepare_accountId c2 rp2))) = Some v
                    \<and> truthy v)"
    for w2 E2 c2 rp2
  proof -
    from prepare_first_request [OF un miss, of E2] obtain w3 c3 out3 rest where
      "prepare E2 w2 c2 rp2 = Some (w3, c3, out3)"
      "trace w3 =
         trace w2 @ Sent \<lparr> rq_method = Some ''POST'',
            rq_url = Some (resolveURL E2 (Some (GlobalAPI E2))
                (Some (''/endpoints/v1/'' @ prepare_accountId c2 rp2 @ ''/residency/default/endpoints''))),
            rq_params = None,
            rq_body = Some (VArr (map VStr (arr_at w2 defaultServiceList
                @ (if requested_service rp2 \<in> set (arr_at w2 defaultServiceList) then []
                   else [requested_service rp2])))) \<rparr> 0 # rest"
      by blast
    moreover have "requested_service rp \<in> set (arr_at w2 defaultServiceList
                @ (if requested_service rp2 \<in> set (arr_at w2 defaultServiceList) then []
                   else [requested_service rp2]))"
      using b [OF l] by simp
    ultimately show ?thesis by blast
  qed
  show ?thesis
    using p a b c by blast
qed

lemmas lookup_evals = getServiceEndpoints_def getServiceEndpoints_begin_def
  getServiceEndpoints_then_def getCachedValue_def setCachedValue_def cabinet_get_def
  cabinet_set_def new_client_def example_env_def always_def initial_world_def new_config_def
  endpointsRequest_def ax_def ax_send_def ax_receive_def onRequestResponse_def
  onRequestError_def arr_at_def defaultServiceList_def initial_defaultServiceList_def
  endpoints_cacheKey_def

lemmas method_evals = get_def post_def write_request_def normalizeRequest_def set_method_def
  set_config_def cfg_at_def dict_at_def fold_accept_header_def fold_response_type_def
  get_fullUrl_def get_cacheTTL_def getCachedValue_def setCachedValue_def deleteCachedValue_def
  cabinet_get_def cabinet_set_def cabinet_delete_def url_key_def new_client_def
  defaultServiceParams_def example_env_def initial_world_def empty_config_def ax_def ax_send_def
  ax_receive_def onRequestResponse_def onRequestError_def snapshot_def

text \<open>
  A read with a descriptor that has no service identity, no cache time to live and no
  \<open>retry_count\<close> sends one request and comes to an end.
\<close>

lemma get_bare:
  assumes "cfgs w a = None"
  shows "\<exists>c' out. get E w c a
      = Some ((fst (ax E (set_method a ''GET'' w) a 0)), c', out)"
proof -
  define w1 where "w1 = set_method a ''GET'' w"
  have cfg: "cfg_at w1 a = empty_config\<lparr> http_method := Some ''GET'' \<rparr>"
    using assms by (simp add: w1_def set_method_def set_config_def cfg_at_def)
  have nr: "normalizeRequest E w1 c a = Some (w1, c, Resolves a)"
    by (simp add: normalizeRequest_plain_eq cfg empty_config_def fold_accept_header_def
        fold_response_type_def)
  have rc: "retry_count (cfg_at w1 a) = None"
    by (simp add: cfg empty_config_def)
  have ttl: "get_cacheTTL (cfg_at w1 a) = 0"
    by (simp add: cfg empty_config_def get_cacheTTL_def)
  show ?thesis
    using nr ttl axiosRequest_no_retry [OF rc, of E 0]
    by (cases "ax E w1 a 0")
       (auto simp: get_def w1_def [symmetric] Let_def split: sum.splits)
qed

text \<open>
  \<open>prepare\<close> allocates at most three objects, at the next free addresses; no descriptor
  beyond them changes.
\<close>

lemma run_now_beyond:
  assumes "run_now E w c acc l = Some (w', c', p)"
  shows "next_addr w' \<le> Suc (next_addr w) \<and> (\<forall>a. next_addr w < a \<longrightarrow> cfgs w' a = cfgs w a)"
  using run_now_world [OF assms] by (auto simp: looked_up_def)

lemma prepare_head_beyond:
  assumes "prepare_head (run_now E) w c acc rp = Some (w', c')"
  shows "next_addr w' \<le> Suc (next_addr w) \<and> (\<forall>a. next_addr w < a \<longrightarrow> cfgs w' a = cfgs w a)"
proof (cases "endpointResolution c acc")
  case (Some p)
  then show ?thesis using assms by (simp add: prepare_head_def)
next
  case None
  define wp where "wp = (if requested_service rp \<notin> set (arr_at w defaultServiceList)
                         then array_push defaultServiceList (requested_service rp) w else w)"
  from assms None obtain c2 p where r: "run_now E wp c acc defaultServiceList = Some (w', c2, p)"
    by (auto simp: prepare_head_def Let_def wp_def split: option.splits if_splits)
  have wp: "cfgs wp = cfgs w" "next_addr wp = next_addr w"
    by (simp_all add: wp_def array_push_def)
  show ?thesis
    using run_now_beyond [OF r] by (simp add: wp)
qed

lemma prepare_tail_beyond:
  assumes "prepare_tail (run_now E) w c acc rp collection = Some (w', c', ret)"
  shows "\<forall>a. Suc (next_addr w) < a \<longrightarrow> cfgs w' a = cfgs w a"
proof (cases "collection = VNull \<or> js_hasOwn w collection (requested_service rp)")
  case True
  then show ?thesis using assms by (auto simp: prepare_tail_def split: if_splits)
next
  case False
  define w1 where "w1 = snd (new_array w (js_keys w collection @ [requested_service rp]))"
  from assms False obtain c2 p where
    r: "run_now E w1 (deleteCachedValue c (''/endpoints/'' @ acc)) acc (next_addr w) = Some (w', c2, p)"
    by (auto simp: prepare_tail_def Let_def w1_def new_array_def split: option.splits)
  have w1: "cfgs w1 = cfgs w" "next_addr w1 = Suc (next_addr w)"
    by (simp_all add: w1_def new_array_def)
  show ?thesis
    using run_now_beyond [OF r] by (simp add: w1)
qed

lemma prepare_beyond:
  assumes "prepare E w c rp = Some (w', c', out)"
      and "Suc (Suc (next_addr w)) < a"
  shows "cfgs w' a = cfgs w a"
proof -
  from prepare_split [OF assms(1)] obtain w1 c1 where
    h: "prepare_head (run_now E) w c (prepare_accountId c rp) rp = Some (w1, c1)"
    and alt: "w' = w1 \<or> (\<exists>collection c2 ret.
               prepare_tail (run_now E) w1 c1 (prepare_accountId c rp) rp collection
                 = Some (w', c2, ret))"
    by blast
  have w1: "next_addr w1 \<le> Suc (next_addr w)" "cfgs w1 a = cfgs w a"
    using prepare_head_beyond [OF h] assms(2) by simp_all
  have "cfgs w' a = cfgs w1 a"
    using alt prepare_tail_beyond w1(1) assms(2) by fastforce
  then show ?thesis
    using w1(2) by simp
qed

theorem prepare_enlarges_defaultServiceList_witness:
  "\<exists>w' c' out.
     prepare (example_env discovery_ok) initial_world (new_client (example_env discovery_ok))
        (service_cfg ''x'' ''2'') = Some (w', c', out)
   \<and> arr_at w' defaultServiceList = initial_defaultServiceList @ [''x'']
   \<and> (\<exists>w2 c2 out2.
         get (example_env (always 200)) w' (new_client (example_env (always 200))) 7
           = Some (w2, c2, out2)
         \<and> ''x'' \<in> set (arr_at w2 defaultServiceList))
   \<and> (\<exists>w3 c3 out3 names rest.
         prepare (example_env (always 503)) w' (new_client (example_env (always 503)))
            (service_cfg ''aims'' ''3'') = Some (w3, c3, out3)
         \<and> trace w3 =
           trace w'
           @ Sent \<lparr> rq_method = Some ''POST'',
                    rq_url = Some ''https://global/endpoints/v1/3/residency/default/endpoints'',
                    rq_params = None, rq_body = Some (VArr (map VStr names)) \<rparr> 0 # rest
         \<and> ''x'' \<in> set names)"
proof -
  define E where "E = example_env discovery_ok"
  have h1: "defaultServiceList < next_addr initial_world"
    by (simp add: initial_world_def defaultServiceList_def)
  have h2: "endpointResolution (new_client E) (prepare_accountId (new_client E) (service_cfg ''x'' ''2'')) = None"
    by (simp add: new_client_def)
  have h3: "requested_service (service_cfg ''x'' ''2'') \<notin> set (arr_at initial_world defaultServiceList)"
    by (simp add: requested_service_def service_cfg_def arr_at_def initial_world_def
        initial_defaultServiceList_def)
  have rs: "requested_service (service_cfg ''x'' ''2'') = ''x''"
    by (simp add: requested_service_def service_cfg_def)
  from prepare_enlarges_defaultServiceList [OF h1 h2 h3, of E]
  obtain w' c' out where
    p: "prepare E initial_world (new_client E) (service_cfg ''x'' ''2'') = Some (w', c', out)"
    and a0: "arr_at w' defaultServiceList
               = arr_at initial_world defaultServiceList @ [requested_service (service_cfg ''x'' ''2'')]"
    and stays: "\<forall>w2. later w' w2 \<longrightarrow> requested_service (service_cfg ''x'' ''2'')
                   \<in> set (arr_at w2 defaultServiceList)"
    and asks: "\<forall>w2 E2 c2 rp2.
          later w' w2
          \<and> endpointResolution c2 (prepare_accountId c2 rp2) = None
          \<and> \<not> (\<exists>v. fst (getCachedValue w2 c2 (endpoints_cacheKey (prepare_accountId c2 rp2))) = Some v
                    \<and> truthy v)
          \<longrightarrow> (\<exists>w3 c3 out3 names rest.
                 prepare E2 w2 c2 rp2 = Some (w3, c3, out3)
                 \<and> trace w3 =
                   trace w2 @ Sent \<lparr> rq_method = Some ''POST'',
                     rq_url = Some (resolveURL E2 (Some (GlobalAPI E2))
                       (Some (''/endpoints/v1/'' @ prepare_accountId c2 rp2
                              @ ''/residency/default/endpoints''))),
                     rq_params = None,
                     rq_body = Some (VArr (map VStr names)) \<rparr> 0 # rest
                 \<and> requested_service (service_cfg ''x'' ''2'') \<in> set names)"
    by blast
  have a: "arr_at w' defaultServiceList = initial_defaultServiceList @ [''x'']"
    using a0 by (simp add: rs arr_at_def initial_world_def)
  have w'cfg: "cfgs w' 7 = None"
    using prepare_beyond [OF p, of 7] by (simp add: initial_world_def)
  from get_bare [OF w'cfg, of "example_env (always 200)" "new_client (example_env (always 200))"]
  obtain c2 out2 where
    g: "get (example_env (always 200)) w' (new_client (example_env (always 200))) 7
          = Some (fst (ax (example_env (always 200)) (set_method 7 ''GET'' w') 7 0), c2, out2)"
    by blast
  have b: "''x'' \<in> set (arr_at (fst (ax (example_env (always 200)) (set_method 7 ''GET'' w') 7 0))
                            defaultServiceList)"
    using stays later_get [OF later_now g] by (simp add: rs)
  have un: "endpointResolution (new_client (example_env (always 503)))
      (prepare_accountId (new_client (example_env (always 503))) (service_cfg ''aims'' ''3'')) = None"
    by (simp add: new_client_def)
  have miss: "\<not> (\<exists>v. fst (getCachedValue w' (new_client (example_env (always 503)))
        (endpoints_cacheKey (prepare_accountId (new_client (example_env (always 503)))
           (service_cfg ''aims'' ''3'')))) = Some v \<and> truthy v)"
    by (simp add: getCachedValue_def cabinet_get_def new_client_def)
  have acc3: "prepare_accountId (new_client (example_env (always 503))) (service_cfg ''aims'' ''3'') = ''3''"
    by (simp add: prepare_accountId_def service_cfg_def)
  have url3: "resolveURL (example_env tr) (Some (GlobalAPI (example_env tr)))
      (Some ''/endpoints/v1/3/residency/default/endpoints'')
      = ''https://global/endpoints/v1/3/residency/default/endpoints''" for tr
    by (simp add: example_env_def)
  have c: "\<exists>w3 c3 out3 names rest.
         prepare (example_env (always 503)) w' (new_client (example_env (always 503)))
            (service_cfg ''aims'' ''3'') = Some (w3, c3, out3)
         \<and> trace w3 =
           trace w'
           @ Sent \<lparr> rq_method = Some ''POST'',
                    rq_url = Some ''https://global/endpoints/v1/3/residency/default/endpoints'',
                    rq_params = None, rq_body = Some (VArr (map VStr names)) \<rparr> 0 # rest
         \<and> ''x'' \<in> set names"
    using asks [rule_format,
        of w' "new_client (example_env (always 503))" "service_cfg ''aims'' ''3''"
           "example_env (always 503)",
        OF conjI [OF later_now conjI [OF un miss]]]
    by (simp add: rs acc3 url3)
  show ?thesis
    using p a g b c unfolding E_def by blast
qed

text \<open>
  What holds when the discovery call fails and nothing usable is cached: the call resolves,
  with a map that sends every service of the list to the default host.
\<close>

lemma map_of_dict_set: "map_of (dict_set k v kvs) = (map_of kvs)(k \<mapsto> v)"
  by (induction kvs) auto

lemma map_of_serviceLocations_of:
  "map_of (serviceLocations_of E xs acc0) s =
     (if s \<in> set xs then Some (VStr (resolveURL E (Some (InsightAPI E)) None)) else map_of acc0 s)"
  by (induction xs arbitrary: acc0) (auto simp: map_of_dict_set)

lemma getServiceEndpoints_failure:
  assumes miss: "\<not> (\<exists>v. fst (getCachedValue w c (endpoints_cacheKey accountId)) = Some v \<and> truthy v)"
      and fail: "ax_receive E (sent w) = Inl e"
  shows "\<exists>w' c'. getServiceEndpoints E w c accountId serviceList
           = Some (w', c', Inr (VObj (serviceLocations_of E (arr_at w serviceList) [])))
     \<and> (\<forall>s \<in> set (arr_at w serviceList).
           map_of (serviceLocations_of E (arr_at w serviceList) []) s
             = Some (VStr (resolveURL E (Some (InsightAPI E)) None)))
     \<and> storage c' (endpoints_cacheKey accountId)
         = Some \<lparr> cached = VList serviceList,
                  expires = now w + latency E (sent w) + 300000 \<rparr>"
proof -
  have arr: "arr_at (looked_up E w accountId serviceList) serviceList = arr_at w serviceList"
    by (simp add: looked_up_def arr_at_def)
  have nw: "now (looked_up E w accountId serviceList) = now w + latency E (sent w)"
    by (simp add: looked_up_def)
  show ?thesis
    by (simp add: getServiceEndpoints_miss [OF miss] fail getServiceEndpoints_then_def arr nw
        map_of_serviceLocations_of setCachedValue_def cabinet_set_def Let_def)
qed

text \<open>
  C3. When the discovery call fails, \<open>getServiceEndpoints\<close> does return a map that sends every
  requested service to the default host, and does not reject. What it stores under the
  cache key of the account is not that map: it is the array of requested service names
  (the success handler beside it stores the map it returns). A lookup that finds this
  entry returns the array as if it were an endpoint collection.
\<close>

theorem getServiceEndpoints_caches_list_on_failure:
  "\<exists>w c. failing_lookup
       = Some (w, c, Inr (VObj (map (\<lambda>s. (s, VStr ''https://insight'')) initial_defaultServiceList)))
   \<and> map_option cached (storage c ''/endpoints/2'') = Some (VList defaultServiceList)
   \<and> map_option expires (storage c ''/endpoints/2'') = Some 300000
   \<and> (\<exists>w2 c2. getServiceEndpoints (example_env (always 503)) w c ''2'' defaultServiceList
         = Some (w2, c2, Inr (VList defaultServiceList)))"
  unfolding failing_lookup_def
  by (simp add: lookup_evals axiosRequest_no_retry cfg_at_def empty_config_def)

section \<open>Properties: the request methods\<close>

text \<open>
  What holds of every write, whatever its outcome: once the request is normalized, the
  entry whose key is the normalized URL is gone.
\<close>

lemma write_request_deletes_url_key:
  assumes "normalizeRequest E w c config = Some (w1, c1, Resolves normalized)"
      and "write_request E w c config = Some (w', c', out)"
  shows "storage c' (url_key (url (cfg_at w1 normalized))) = None"
  using assms
  by (auto simp: write_request_def Let_def deleteCachedValue_def cabinet_delete_def
      split: prod.splits sum.splits option.splits)

text \<open>
  C2. A write deletes the cache entry whose key is the normalized URL, before it sends. A
  cached read does not keep its response under that key: its key is the constant text
  \<open>normalized.url\<close> followed by the query string. So a cached read of a URL, after a write to
  the same URL, still returns the value cached before the write, and sends nothing.
\<close>

theorem stale_read_after_write:
  "\<exists>w1 c1 w2 c2 w3 c3.
     after_read = Some (w1, c1, Resolves (VStr ''old''))
   \<and> after_write = Some (w2, c2, Resolves (VStr ''new''))
   \<and> after_reread = Some (w3, c3, Resolves (VStr ''old''))
   \<and> sent w3 = 2
   \<and> map rq_method (requests_of (trace w3)) = [Some ''GET'', Some ''POST'']"
  unfolding after_reread_def after_write_def after_read_def rwr_world_def read_cfg_def
    write_cfg_def old_then_new_def
  by (simp add: method_evals axiosRequest_no_retry)

section \<open>Properties: request normalization\<close>

lemma kept_refl [simp]: "kept w w"
  by (simp add: kept_def)








lemma fold_accept_header_skip:
  "\<not> truthy_string (accept_header (cfg_at w a)) \<Longrightarrow> fold_accept_header a w = w"
  by (auto simp: fold_accept_header_def truthy_string_def split: option.splits)

lemma fold_response_type_skip:
  "\<not> truthy_string (response_type (cfg_at w a)) \<Longrightarrow> fold_response_type a w = w"
  by (auto simp: fold_response_type_def truthy_string_def split: option.splits)



















section \<open>Properties: the key of a cached read\<close>

lemma normalizeRequest_plain:
  "service_name (cfg_at w a) = None \<Longrightarrow> service_stack (cfg_at w a) = None \<Longrightarrow>
   \<not> truthy_string (accept_header (cfg_at w a)) \<Longrightarrow>
   \<not> truthy_string (response_type (cfg_at w a)) \<Longrightarrow>
   normalizeRequest E w c a = Some (w, c, Resolves a)"
  by (simp add: normalizeRequest_def fold_accept_header_skip fold_response_type_skip)

lemma query_key: "queryString [(''q'', ''a b'')] = ''q=a%20b''"
  by code_simp

lemma first_get_eval:
  "\<exists>wA cA. first_get = Some (wA, cA, Resolves (VStr ''old''))
   \<and> cfgs wA 2 = Some ((read_cfg ''https://api.example.com/orders'')\<lparr> params := Some 4 \<rparr>)
   \<and> dicts wA 4 = Some [(''q'', ''a b'')]
   \<and> now wA = 0
   \<and> sent wA = 1
   \<and> storage cA ''normalized.url?q=a%20b''
        = Some \<lparr> cached = VStr ''old'', expires = 60000 \<rparr>"
  unfolding first_get_def query_world_def read_cfg_def old_then_new_def
  by (simp add: method_evals axiosRequest_no_retry query_key)

text \<open>
  C10. For a read whose normalized request has a positive cache time to live, the key under
  which \<open>get\<close> looks the response up, and under which it stores the response of a successful
  call, is the constant text \<open>normalized.url\<close> followed by the query string of the
  descriptor's parameters (after a question mark, when there are any); the URL of the
  request is no part of it.
\<close>

theorem get_cache_key:
  assumes nr: "normalizeRequest E (set_method config ''GET'' w) c config
                 = Some (w1, c1, Resolves normalized)"
      and pos: "0 < get_cacheTTL (cfg_at w1 normalized)"
      and qs: "qs = (case params (cfg_at w1 config) of
                       Some p \<Rightarrow> queryString (dict_at w1 p) | None \<Rightarrow> [])"
      and key: "key = ''normalized.url'' @ (if qs = [] then [] else ''?'' @ qs)"
  shows "(\<forall>v. fst (getCachedValue w1 c1 key) = Some v \<and> truthy v
            \<longrightarrow> get E w c config = Some (w1, snd (getCachedValue w1 c1 key), Resolves v))
       \<and> (\<forall>w2 response.
            \<not> (\<exists>v. fst (getCachedValue w1 c1 key) = Some v \<and> truthy v)
            \<and> axiosRequest E w1 normalized 0 = Some (w2, Inr response)
            \<longrightarrow> get E w c config =
                  Some (w2,
                   setCachedValue w2 (snd (getCachedValue w1 c1 key)) key (data response)
                     (get_cacheTTL (cfg_at w1 normalized)),
                   Resolves (data response)))"
proof -
  have fu: "get_fullUrl w1 config = key"
    by (simp add: get_fullUrl_def Let_def key qs)
  obtain found c2 where g: "getCachedValue w1 c1 key = (found, c2)"
    by (cases "getCachedValue w1 c1 key") auto
  show ?thesis
    using pos
    by (cases found) (auto simp: get_def nr fu g Let_def)
qed

text \<open>
  Two reads with different URLs and equal parameters: the second returns the response of
  the first from the cache and sends nothing.
\<close>

theorem get_cache_key_witness:
  "url (cfg_at query_world 1) \<noteq> url (cfg_at query_world 2)
   \<and> (\<exists>wA cA. first_get = Some (wA, cA, Resolves (VStr ''old''))
        \<and> map_option cached (storage cA ''normalized.url?q=a%20b'') = Some (VStr ''old'')
        \<and> get (example_env old_then_new) wA cA 2
            = Some (set_method 2 ''GET'' wA, cA, Resolves (VStr ''old''))
        \<and> sent (set_method 2 ''GET'' wA) = 1)"
proof -
  define E where "E = example_env old_then_new"
  from first_get_eval obtain wA cA where
    fg: "first_get = Some (wA, cA, Resolves (VStr ''old''))"
    and ev: "cfgs wA 2 = Some ((read_cfg ''https://api.example.com/orders'')\<lparr> params := Some 4 \<rparr>)"
      "dicts wA 4 = Some [(''q'', ''a b'')]"
      "now wA = 0"
      "sent wA = 1"
      "storage cA ''normalized.url?q=a%20b'' = Some \<lparr> cached = VStr ''old'', expires = 60000 \<rparr>"
    by blast
  define w1 where "w1 = set_method 2 ''GET'' wA"
  have cfg2: "cfg_at w1 2 = (read_cfg ''https://api.example.com/orders'')
                 \<lparr> params := Some 4, http_method := Some ''GET'' \<rparr>"
    using ev by (simp add: w1_def set_method_def set_config_def cfg_at_def)
  have nr: "normalizeRequest E w1 cA 2 = Some (w1, cA, Resolves 2)"
    by (rule normalizeRequest_plain)
       (simp_all add: cfg2 read_cfg_def empty_config_def truthy_string_def)
  have pos: "0 < get_cacheTTL (cfg_at w1 2)"
    by (simp add: cfg2 read_cfg_def get_cacheTTL_def)
  have d4: "dict_at w1 4 = [(''q'', ''a b'')]"
    using ev by (simp add: w1_def set_method_def set_config_def dict_at_def)
  have qs: "''q=a%20b'' = (case params (cfg_at w1 2) of
                       Some p \<Rightarrow> queryString (dict_at w1 p) | None \<Rightarrow> [])"
    by (simp add: cfg2 d4 query_key)
  have key: "''normalized.url?q=a%20b'' =
      ''normalized.url'' @ (if ''q=a%20b'' = [] then [] else ''?'' @ ''q=a%20b'')"
    by simp
  have now1: "now w1 = 0"
    using ev by (simp add: w1_def set_method_def set_config_def)
  have hit: "getCachedValue w1 cA ''normalized.url?q=a%20b'' = (Some (VStr ''old''), cA)"
    using ev by (simp add: getCachedValue_def cabinet_get_def now1)
  have second: "get E wA cA 2 = Some (w1, cA, Resolves (VStr ''old''))"
    using get_cache_key [OF nr [unfolded w1_def] pos [unfolded w1_def] qs [unfolded w1_def] key,
        THEN conjunct1, rule_format, of "VStr ''old''"] hit
    by (simp add: w1_def)
  have urls: "url (cfg_at query_world 1) \<noteq> url (cfg_at query_world 2)"
    by (simp add: query_world_def cfg_at_def read_cfg_def)
  have s1: "sent w1 = 1"
    using ev by (simp add: w1_def set_method_def set_config_def)
  have st: "map_option cached (storage cA ''normalized.url?q=a%20b'') = Some (VStr ''old'')"
    using ev by simp
  show ?thesis
    using urls fg st second s1 unfolding E_def w1_def by blast
qed

end
